theory Spec2Isabelle
  imports Complex_Main
begin

section \<open>Data model (types.ts)\<close>

datatype ProcessingStage = RAW | ARABIC | TITLES | FORMAL | CUSTOM

text \<open>
  Interface \<open>Version\<close>. The field \<open>id\<close> is written \<open>vid\<close> (\<open>id\<close> is the identity
  function of HOL, and both interfaces have a field of that name).
\<close>

record Version =
  vid :: string
  stage :: ProcessingStage
  name :: string
  content :: string
  parentId :: "string option"
  timestamp :: nat
  promptUsed :: "string option"

text \<open>The status strings of \<open>MediaItem\<close>; \<open>'error'\<close> is \<open>Errored\<close>.\<close>

datatype Status = Idle | Uploading | Processing | Paused | Completed | Errored

text \<open>A browser \<open>File\<close> handle; only its presence is inspected by the orchestration.\<close>

datatype File = File string

text \<open>
  Interface \<open>MediaItem\<close>; its \<open>id\<close> is \<open>mid\<close>. The chunk counters are natural numbers
  (\<open>processedChunks || 0\<close> reads an absent counter as 0), \<open>duration\<close> is a real number of
  seconds and \<open>progress\<close> an integer percentage. The field \<open>file\<close> is \<open>itemFile\<close> (a keyword of Isabelle); an absent file or \<open>error\<close> is \<open>None\<close>.
\<close>

record MediaItem =
  mid :: string
  itemFile :: "File option"
  duration :: real
  status :: Status
  progress :: int
  currentVersionId :: "string option"
  versions :: "Version list"
  error :: "string option"
  processedChunks :: nat
  totalChunks :: nat

text \<open>A thrown \<open>Error\<close> object, with its \<open>message\<close>.\<close>

datatype js_error = Error (message: string)

section \<open>Remote calls with retry and fallback (services/geminiService.ts)\<close>

text \<open>
  What the adapter does to the outside world is kept as a trace: every call of
  \<open>ai.models.generateContent\<close> (model and attempt number) and every back-off sleep
  (milliseconds).
\<close>

datatype Event = Attempt string nat | Backoff nat

record RetryState =
  calls :: nat
  lastError :: "js_error option"
  trace :: "Event list"

definition initRetry :: RetryState where
  "initRetry = \<lparr>calls = 0, lastError = None, trace = []\<rparr>"

text \<open>\<open>[...new Set(xs)]\<close>: the first occurrence of each element, in order.\<close>

primrec uniqueFrom :: "string list \<Rightarrow> string list \<Rightarrow> string list" where
  "uniqueFrom seen [] = []"
| "uniqueFrom seen (x # xs) =
     (if x \<in> set seen then uniqueFrom seen xs else x # uniqueFrom (seen @ [x]) xs)"

definition MODELS_TO_TRY :: "string \<Rightarrow> string list" where
  "MODELS_TO_TRY selectedModel =
     [selectedModel, ''gemini-3-flash-preview'', ''gemini-2.5-pro-preview'',
      ''gemini-2.5-flash-preview'', ''gemini-2.0-flash-exp'', ''gemini-1.5-flash'']"

definition uniqueModels :: "string \<Rightarrow> string list" where
  "uniqueModels selectedModel = uniqueFrom [] (MODELS_TO_TRY selectedModel)"

text \<open>\<open>response.text || ""\<close>.\<close>

definition textOrEmpty :: "string option \<Rightarrow> string" where
  "textOrEmpty t = (case t of None \<Rightarrow> [] | Some s \<Rightarrow> s)"

text \<open>
  The inner loop of \<open>transcribeSegment\<close>, \<open>for (attempt = 1; attempt <= 3; attempt++)\<close>,
  over the attempt numbers still to run. The remote \<open>gen\<close> answers the \<open>n\<close>-th call of this
  invocation for a model with a text (possibly absent) or throws. \<open>clean\<close> is
  \<open>cleanResponse\<close>, a pure function on strings that the orchestration never inspects;
  it is a parameter, so every result holds for the source's regular expressions too.
  \<open>None\<close> means that the loop ran out without returning.
\<close>

fun attemptLoop ::
  "(nat \<Rightarrow> string \<Rightarrow> js_error + string option) \<Rightarrow> (string \<Rightarrow> string) \<Rightarrow> string \<Rightarrow>
   nat list \<Rightarrow> RetryState \<Rightarrow> string option \<times> RetryState" where
  "attemptLoop gen clean model [] s = (None, s)"
| "attemptLoop gen clean model (attempt # rest) s =
     (case gen (calls s) model of
        Inr text \<Rightarrow>
          (Some (clean (textOrEmpty text)),
           s\<lparr>calls := Suc (calls s), trace := trace s @ [Attempt model attempt]\<rparr>)
      | Inl err \<Rightarrow>
          attemptLoop gen clean model rest
            (s\<lparr>calls := Suc (calls s), lastError := Some err,
               trace := trace s @ [Attempt model attempt, Backoff (1000 * 2 ^ (attempt - 1))]\<rparr>))"

text \<open>The outer loop, \<open>for (const model of uniqueModels)\<close>.\<close>

fun modelLoop ::
  "(nat \<Rightarrow> string \<Rightarrow> js_error + string option) \<Rightarrow> (string \<Rightarrow> string) \<Rightarrow>
   string list \<Rightarrow> RetryState \<Rightarrow> string option \<times> RetryState" where
  "modelLoop gen clean [] s = (None, s)"
| "modelLoop gen clean (model # ms) s =
     (case attemptLoop gen clean model [1, 2, 3] s of
        (Some r, s') \<Rightarrow> (Some r, s')
      | (None, s') \<Rightarrow> modelLoop gen clean ms s')"

text \<open>
  \<open>transcribeSegment(apiKey, audioChunkBase64, mimeType, selectedModel)\<close>. The remote
  takes the model and the audio data (the prompt is a constant). The result is the text
  or the thrown error, with the final retry state.
\<close>

definition transcribeSegment ::
  "(nat \<Rightarrow> string \<Rightarrow> string \<Rightarrow> js_error + string option) \<Rightarrow> (string \<Rightarrow> string) \<Rightarrow>
   string \<Rightarrow> string \<Rightarrow> string \<Rightarrow> string \<Rightarrow> (js_error + string) \<times> RetryState" where
  "transcribeSegment gen clean apiKey audioChunkBase64 mimeType selectedModel =
     (case modelLoop (\<lambda>n model. gen n model audioChunkBase64) clean
             (uniqueModels selectedModel) initRetry of
        (Some r, s) \<Rightarrow> (Inr r, s)
      | (None, s) \<Rightarrow>
          (Inl (case lastError s of
                  Some e \<Rightarrow> e
                | None \<Rightarrow> Error ''Transcription failed after multiple attempts.''), s))"

text \<open>
  The loop of \<open>processTextStage\<close>: one call per model, no sleep; the error is rethrown
  when the model is the last element of \<open>uniqueModels\<close>; \<open>return ""\<close> after the loop.
\<close>

fun textLoop ::
  "(nat \<Rightarrow> string \<Rightarrow> js_error + string option) \<Rightarrow> (string \<Rightarrow> string) \<Rightarrow> string \<Rightarrow>
   string list \<Rightarrow> RetryState \<Rightarrow> (js_error + string) \<times> RetryState" where
  "textLoop gen clean lastModel [] s = (Inr [], s)"
| "textLoop gen clean lastModel (model # ms) s =
     (case gen (calls s) model of
        Inr text \<Rightarrow>
          (Inr (clean (textOrEmpty text)),
           s\<lparr>calls := Suc (calls s), trace := trace s @ [Attempt model 1]\<rparr>)
      | Inl e \<Rightarrow>
          (let s' = s\<lparr>calls := Suc (calls s), trace := trace s @ [Attempt model 1]\<rparr>
           in if model = lastModel then (Inl e, s') else textLoop gen clean lastModel ms s'))"

text \<open>
  \<open>processTextStage(apiKey, text, stage, selectedModel, customPrompt)\<close>. The system
  instruction, the user prompt and the thinking configuration are functions of the model,
  the stage, the text and the custom prompt, so the remote takes these four. A stage
  without a \<open>case\<close> (RAW) throws before any call.
\<close>

definition processTextStage ::
  "(nat \<Rightarrow> string \<Rightarrow> ProcessingStage \<Rightarrow> string \<Rightarrow> string option \<Rightarrow> js_error + string option) \<Rightarrow>
   (string \<Rightarrow> string) \<Rightarrow> string \<Rightarrow> string \<Rightarrow> ProcessingStage \<Rightarrow> string \<Rightarrow> string option \<Rightarrow>
   (js_error + string) \<times> RetryState" where
  "processTextStage gen clean apiKey text stg selectedModel customPrompt =
     (if stg = RAW then (Inl (Error ''Invalid stage''), initRetry)
      else textLoop (\<lambda>n model. gen n model stg text customPrompt) clean
             (last (uniqueModels selectedModel)) (uniqueModels selectedModel) initRetry)"

section \<open>Audio windows\<close>

definition CHUNK_DURATION :: real where
  "CHUNK_DURATION = 240"

text \<open>
  An \<open>AudioBuffer\<close> is modelled by its \<open>duration\<close> in seconds, the one attribute the
  orchestration reads. A \<open>Blob\<close> is empty or the MP3 encoding of a slice, named by the
  offset and the length in seconds handed to \<open>source.start(0, startTime, actualDuration)\<close>.
  The rendering of the slice (into \<open>Math.ceil(actualDuration * 16000)\<close> samples) and its
  encoding are the content of the blob and are not modelled. Seconds are real numbers:
  the rounding of double arithmetic is not modelled.
\<close>

type_synonym AudioBuffer = real

datatype Blob = EmptyBlob | Mp3 real real

text \<open>
  \<open>sliceAudioBuffer(fullBuffer, startTime, duration)\<close>; \<open>lamejs\<close> says whether the encoder
  library is loaded (\<open>convertBufferToMp3\<close> throws otherwise).
\<close>

definition sliceAudioBuffer :: "bool \<Rightarrow> AudioBuffer \<Rightarrow> real \<Rightarrow> real \<Rightarrow> js_error + Blob" where
  "sliceAudioBuffer lamejs fullBuffer startTime dur =
     (if startTime \<ge> fullBuffer then Inr EmptyBlob
      else
        (let actualDuration = min dur (fullBuffer - startTime)
         in if \<not> lamejs then Inl (Error ''Lamejs library not loaded'')
            else Inr (Mp3 startTime actualDuration)))"

text \<open>\<open>Math.ceil(duration / CHUNK_DURATION)\<close>, for the non-negative duration of a buffer.\<close>

definition chunkCount :: "real \<Rightarrow> nat" where
  "chunkCount d = nat \<lceil>d / CHUNK_DURATION\<rceil>"

section \<open>Deleting a saved project (services/supabaseClient.ts)\<close>

text \<open>
  The three \<open>throw new Error(...)\<close> of \<open>deleteProjectFromSupabase\<close>: the fixed not-found
  message, the message of the delete error, and the fixed row-level-security message.
\<close>

datatype DeleteError = NotFound | DeleteFailed string | PolicyBlocked

datatype DbCall = SelectId string | DeleteId string

text \<open>
  The storage service: \<open>checkError\<close> is the \<open>error\<close> of the \<open>select('id').eq('id', id).single()\<close>
  response; \<open>deleteResponse\<close> is the pair \<open>{error, count}\<close> of the delete, the count a number
  of rows or null.
\<close>

record Storage =
  checkError :: "string \<Rightarrow> string option"
  deleteResponse :: "string \<Rightarrow> string option \<times> nat option"

definition deleteProjectFromSupabase ::
  "Storage \<Rightarrow> string \<Rightarrow> (DeleteError + bool) \<times> DbCall list" where
  "deleteProjectFromSupabase db ident =
     (case checkError db ident of
        Some e \<Rightarrow> (Inl NotFound, [SelectId ident])
      | None \<Rightarrow>
          (case deleteResponse db ident of
             (Some msg, count) \<Rightarrow> (Inl (DeleteFailed msg), [SelectId ident, DeleteId ident])
           | (None, count) \<Rightarrow>
               (if count = Some 0 \<or> count = None
                then (Inl PolicyBlocked, [SelectId ident, DeleteId ident])
                else (Inr True, [SelectId ident, DeleteId ident]))))"

section \<open>Application state and environment (App.tsx)\<close>

datatype SyncStatus = SyncIdle | SyncSaving | SyncSaved | SyncError

text \<open>
  The React state the transcription and stage logic reads and writes, with three logs of
  what the application did: the chunk indices handed to \<open>transcribeSegment\<close>, the items
  handed to \<open>saveProjectToSupabase\<close>, and the blobs \<open>sliceAudioBuffer\<close> returned to the
  chunk loop.
\<close>

record AppState =
  apiKey :: string
  selectedModel :: string
  mediaQueue :: "MediaItem list"
  activeItemId :: "string option"
  showKeyModal :: bool
  syncStatus :: SyncStatus
  sent :: "nat list"
  saved :: "MediaItem list"
  slices :: "Blob list"

text \<open>
  What the outside world answers during one invocation: the answer to \<open>confirm\<close>, the
  identifier \<open>uuidv4()\<close> draws, \<open>Date.now()\<close>, the audio decoder, whether lamejs is loaded,
  the base64 reader, the remote model for chunk \<open>i\<close> (then call number, model, data), the
  remote model for text stages, \<open>cleanResponse\<close>, what other handlers did to the queue
  before iteration \<open>i\<close> reads \<open>mediaQueueRef.current\<close>, whether a save fails, and how
  often the progress timer of a stage run fires before the remote call resolves.
\<close>

record Env =
  confirm :: bool
  uuidv4 :: string
  now :: nat
  decodeAudioFile :: "File \<Rightarrow> js_error + AudioBuffer"
  lamejs :: bool
  blobToBase64 :: "Blob \<Rightarrow> js_error + string"
  generateContent :: "nat \<Rightarrow> nat \<Rightarrow> string \<Rightarrow> string \<Rightarrow> js_error + string option"
  generateText ::
    "nat \<Rightarrow> string \<Rightarrow> ProcessingStage \<Rightarrow> string \<Rightarrow> string option \<Rightarrow> js_error + string option"
  cleanResponse :: "string \<Rightarrow> string"
  external :: "nat \<Rightarrow> MediaItem list \<Rightarrow> MediaItem list"
  saveFails :: "MediaItem \<Rightarrow> bool"
  ticks :: nat

text \<open>
  The Persian string literals of the source are immaterial to the logic; each is a named
  constant holding an English rendering.
\<close>

definition NAME_RAW_CONTINUING :: string where "NAME_RAW_CONTINUING = ''raw text (continuing...)''"
definition NAME_RAW_GENERATING :: string where "NAME_RAW_GENERATING = ''raw text (generating...)''"
definition NAME_RAW_COMPLETING :: string where "NAME_RAW_COMPLETING = ''raw text (being completed)''"
definition NAME_RAW_COMPLETE :: string where "NAME_RAW_COMPLETE = ''raw text (complete)''"
definition SUFFIX_PROCESSING :: string where "SUFFIX_PROCESSING = '' (processing...)''"
definition SUFFIX_FAILED :: string where "SUFFIX_FAILED = '' (failed)''"
definition CONTENT_PLEASE_WAIT :: string where "CONTENT_PLEASE_WAIT = ''please wait...''"
definition CONTENT_STAGE_FAILED :: string where
  "CONTENT_STAGE_FAILED = ''processing error. please try again.''"
definition MSG_CONNECTION :: string where "MSG_CONNECTION = ''connection error''"

text \<open>\<open>queue.find(x => x.id === a)\<close> and \<open>versions.find(v => v.id === b)\<close>.\<close>

definition findItem :: "string \<Rightarrow> MediaItem list \<Rightarrow> MediaItem option" where
  "findItem a q = find (\<lambda>x. mid x = a) q"

definition findVersion :: "string \<Rightarrow> Version list \<Rightarrow> Version option" where
  "findVersion b vs = find (\<lambda>v. vid v = b) vs"

text \<open>\<open>versions.find(v => v.stage === ProcessingStage.RAW)\<close>.\<close>

definition findRaw :: "Version list \<Rightarrow> Version option" where
  "findRaw vs = find (\<lambda>v. stage v = RAW) vs"

text \<open>
  \<open>updateItem(id, updates)\<close>. The partial object \<open>updates\<close> is the record update \<open>f\<close> it
  merges in; \<open>touches\<close> is \<open>updates.versions || updates.status\<close>.
\<close>

definition updateItem :: "string \<Rightarrow> (MediaItem \<Rightarrow> MediaItem) \<Rightarrow> bool \<Rightarrow> AppState \<Rightarrow> AppState" where
  "updateItem a f touches st =
     st\<lparr>mediaQueue := map (\<lambda>item. if mid item = a then f item else item) (mediaQueue st),
        syncStatus := (if touches then SyncIdle else syncStatus st)\<rparr>"

definition addVersionToItem :: "string \<Rightarrow> Version \<Rightarrow> bool \<Rightarrow> AppState \<Rightarrow> AppState" where
  "addVersionToItem itemId version setAsCurrent st =
     st\<lparr>mediaQueue :=
          map (\<lambda>item. if mid item \<noteq> itemId then item
                      else item\<lparr>versions := versions item @ [version],
                                currentVersionId :=
                                  (if setAsCurrent then Some (vid version)
                                   else currentVersionId item)\<rparr>)
              (mediaQueue st),
        syncStatus := SyncIdle\<rparr>"

text \<open>
  \<open>handleSaveToCloud(item, isAuto)\<close>, run to the end of its \<open>try\<close>: the save is logged
  and the sync status is the outcome. (\<open>isAuto\<close> only decides whether a later timer
  resets the status; the time of the last save, read by the periodic auto-save alone, is
  not part of the state here.)
\<close>

definition handleSaveToCloud :: "Env \<Rightarrow> MediaItem \<Rightarrow> bool \<Rightarrow> AppState \<Rightarrow> AppState" where
  "handleSaveToCloud env item isAuto st =
     st\<lparr>saved := saved st @ [item],
        syncStatus := (if saveFails env item then SyncError else SyncSaved)\<rparr>"

text \<open>
  \<open>Math.round\<close>: to the nearest integer, halves upwards. The operand is a real number: the
  rounding of the double division and multiplication before it is not modelled.
\<close>

definition js_round :: "real \<Rightarrow> int" where
  "js_round x = \<lfloor>x + 1 / 2\<rfloor>"

text \<open>\<open>err.message || "..."\<close>.\<close>

definition errorMessage :: "js_error \<Rightarrow> string" where
  "errorMessage err = (if message err = [] then MSG_CONNECTION else message err)"

text \<open>\<open>!x.error\<close>: an absent or empty error string.\<close>

definition noError :: "MediaItem \<Rightarrow> bool" where
  "noError x = (error x = None \<or> error x = Some [])"

text \<open>\<open>currentItemState?.status === 'paused' && !currentItemState.error\<close>.\<close>

definition pausedWithoutError :: "MediaItem option \<Rightarrow> bool" where
  "pausedWithoutError currentItemState =
     (case currentItemState of None \<Rightarrow> False | Some c \<Rightarrow> status c = Paused \<and> noError c)"

definition patchVersions :: "string \<Rightarrow> (Version \<Rightarrow> Version) \<Rightarrow> string \<Rightarrow> AppState \<Rightarrow> AppState" where
  "patchVersions a g b st =
     st\<lparr>mediaQueue :=
          map (\<lambda>qItem. if mid qItem \<noteq> a then qItem
                       else qItem\<lparr>versions := map (\<lambda>v. if vid v = b then g v else v) (versions qItem)\<rparr>)
              (mediaQueue st)\<rparr>"

section \<open>The transcription loop\<close>

datatype StepResult = Break AppState | Throw js_error AppState | Continue string AppState

text \<open>
  One iteration of \<open>for (let i = startIndex; i < currentTotalChunks; i++)\<close>: the body
  either breaks (paused from outside, no error), throws, or commits chunk \<open>i\<close> and goes on
  with the longer transcript.
\<close>

definition chunkStep ::
  "Env \<Rightarrow> MediaItem \<Rightarrow> AudioBuffer \<Rightarrow> string \<Rightarrow> nat \<Rightarrow> nat \<Rightarrow> string \<Rightarrow> AppState \<Rightarrow> StepResult" where
  "chunkStep env item audioBuffer baseVersionId currentTotalChunks i fullTranscript st =
     (let st0 = st\<lparr>mediaQueue := external env i (mediaQueue st)\<rparr>;
          currentItemState = findItem (mid item) (mediaQueue st0)
      in if pausedWithoutError currentItemState
         then Break st0
         else
           (let startTime = real i * CHUNK_DURATION;
                currentProgress = js_round (real i / real currentTotalChunks * 100);
                st1 = updateItem (mid item) (\<lambda>m. m\<lparr>progress := currentProgress\<rparr>) False st0
            in case sliceAudioBuffer (lamejs env) audioBuffer startTime CHUNK_DURATION of
                 Inl e \<Rightarrow> Throw e st1
               | Inr chunkBlob \<Rightarrow>
                   (case blobToBase64 env chunkBlob of
                      Inl e \<Rightarrow> Throw e (st1\<lparr>slices := slices st1 @ [chunkBlob]\<rparr>)
                    | Inr chunkBase64 \<Rightarrow>
                        (let st2 = st1\<lparr>slices := slices st1 @ [chunkBlob],
                                       sent := sent st1 @ [i]\<rparr>
                         in case fst (transcribeSegment (generateContent env i) (cleanResponse env)
                                        (apiKey st) chunkBase64 ''audio/mp3'' (selectedModel st)) of
                              Inl e \<Rightarrow> Throw e st2
                            | Inr chunkText \<Rightarrow>
                                (let fullTranscript' = fullTranscript @ chunkText @ '' '';
                                     nextProgress =
                                       js_round (real (i + 1) / real currentTotalChunks * 100);
                                     st3 = updateItem (mid item)
                                             (\<lambda>m. m\<lparr>processedChunks := i + 1,
                                                     progress := nextProgress\<rparr>) False st2;
                                     st4 = patchVersions (mid item)
                                             (\<lambda>v. v\<lparr>content := fullTranscript',
                                                     name := NAME_RAW_COMPLETING\<rparr>)
                                             baseVersionId st3
                                 in Continue fullTranscript' st4)))))"

text \<open>
  The loop: the thrown error, or the flag \<open>completedSuccessfully\<close> with the transcript,
  and the state reached.
\<close>

function chunkLoop ::
  "Env \<Rightarrow> MediaItem \<Rightarrow> AudioBuffer \<Rightarrow> string \<Rightarrow> nat \<Rightarrow> nat \<Rightarrow> string \<Rightarrow> AppState \<Rightarrow>
   (js_error + bool \<times> string) \<times> AppState" where
  "chunkLoop env item audioBuffer baseVersionId currentTotalChunks i fullTranscript st =
     (if i < currentTotalChunks
      then (case chunkStep env item audioBuffer baseVersionId currentTotalChunks i fullTranscript st of
              Break st' \<Rightarrow> (Inr (False, fullTranscript), st')
            | Throw e st' \<Rightarrow> (Inl e, st')
            | Continue fullTranscript' st' \<Rightarrow>
                chunkLoop env item audioBuffer baseVersionId currentTotalChunks (Suc i)
                  fullTranscript' st')
      else (Inr (True, fullTranscript), st))"
  by pat_completeness auto
termination
  by (relation "measure (\<lambda>(env, item, audioBuffer, baseVersionId, currentTotalChunks, i, rest).
                           currentTotalChunks - i)") auto

declare chunkLoop.simps [simp del]

definition rawVersion :: "string \<Rightarrow> string \<Rightarrow> string \<Rightarrow> nat \<Rightarrow> Version" where
  "rawVersion ident nm text t =
     \<lparr>vid = ident, stage = RAW, name = nm, content = text, parentId = None, timestamp = t,
      promptUsed = None\<rparr>"

text \<open>The completion block, after the loop ran out with \<open>completedSuccessfully\<close>.\<close>

definition completeTranscription ::
  "Env \<Rightarrow> MediaItem \<Rightarrow> string \<Rightarrow> string \<Rightarrow> Version list \<Rightarrow> real \<Rightarrow> nat \<Rightarrow> AppState \<Rightarrow> AppState" where
  "completeTranscription env item baseVersionId fullTranscript initialVersions currentDuration
     currentTotalChunks st =
     (let st1 = updateItem (mid item) (\<lambda>m. m\<lparr>status := Completed, progress := 100\<rparr>) True st;
          st2 = patchVersions (mid item) (\<lambda>v. v\<lparr>name := NAME_RAW_COMPLETE\<rparr>) baseVersionId st1;
          mapped = map (\<lambda>v. if vid v = baseVersionId
                             then v\<lparr>content := fullTranscript, name := NAME_RAW_COMPLETE\<rparr>
                             else v) initialVersions;
          finalVersions =
            (if findVersion baseVersionId mapped = None
             then mapped @ [rawVersion baseVersionId NAME_RAW_COMPLETE fullTranscript (now env)]
             else mapped);
          finalItemToSave =
            item\<lparr>status := Completed, progress := 100, duration := currentDuration,
                 totalChunks := currentTotalChunks, processedChunks := currentTotalChunks,
                 versions := finalVersions, currentVersionId := Some baseVersionId\<rparr>
      in handleSaveToCloud env finalItemToSave True st2)"

text \<open>
  The \<open>try\<close> block of \<open>startTranscription\<close>: the error it throws, if any, and the state
  at that point.
\<close>

definition tryBlock ::
  "Env \<Rightarrow> MediaItem \<Rightarrow> File \<Rightarrow> nat \<Rightarrow> string \<Rightarrow> string \<Rightarrow> Version list \<Rightarrow> AppState \<Rightarrow>
   js_error option \<times> AppState" where
  "tryBlock env item f startIndex baseVersionId fullTranscript initialVersions st =
     (case (if startIndex = 0 \<or> duration item = 0
            then (case decodeAudioFile env f of
                    Inl e \<Rightarrow> Inl e
                  | Inr audioBuffer \<Rightarrow>
                      Inr (audioBuffer, chunkCount audioBuffer,
                           updateItem (mid item)
                             (\<lambda>m. m\<lparr>duration := audioBuffer,
                                     totalChunks := chunkCount audioBuffer\<rparr>) False st))
            else Inr (duration item, totalChunks item, st)) of
        Inl e \<Rightarrow> (Some e, st)
      | Inr (currentDuration, total0, st1) \<Rightarrow>
          (case decodeAudioFile env f of
             Inl e \<Rightarrow> (Some e, st1)
           | Inr audioBuffer \<Rightarrow>
               (let currentTotalChunks = (if total0 = 0 then chunkCount audioBuffer else total0)
                in case chunkLoop env item audioBuffer baseVersionId currentTotalChunks startIndex
                          fullTranscript st1 of
                     (Inl e, st2) \<Rightarrow> (Some e, st2)
                   | (Inr (completedSuccessfully, fullTranscript'), st2) \<Rightarrow>
                       (if completedSuccessfully
                        then (None, completeTranscription env item baseVersionId fullTranscript'
                                      initialVersions currentDuration currentTotalChunks st2)
                        else (None, st2)))))"

text \<open>The \<open>try\<close> block with its \<open>catch\<close>: pause on any error, and do not save.\<close>

definition runTranscription ::
  "Env \<Rightarrow> MediaItem \<Rightarrow> File \<Rightarrow> nat \<Rightarrow> string \<Rightarrow> string \<Rightarrow> Version list \<Rightarrow> AppState \<Rightarrow> AppState" where
  "runTranscription env item f startIndex baseVersionId fullTranscript initialVersions st =
     (case tryBlock env item f startIndex baseVersionId fullTranscript initialVersions st of
        (None, st') \<Rightarrow> st'
      | (Some err, st') \<Rightarrow>
          updateItem (mid item)
            (\<lambda>m. m\<lparr>status := Paused, error := Some (errorMessage err),
                    progress := progress item\<rparr>) True st')"

text \<open>
  The version block of \<open>startTranscription\<close> (``Handle Versioning''): either the user
  declined to continue, and the counters are reset for the recursive call, or the block
  leaves \<open>baseVersionId\<close>, \<open>fullTranscript\<close> and \<open>initialVersions\<close> for the \<open>try\<close> block.
\<close>

datatype Resolution = Restart AppState | Resolved string string "Version list" AppState

definition resolveVersion :: "Env \<Rightarrow> MediaItem \<Rightarrow> bool \<Rightarrow> nat \<Rightarrow> AppState \<Rightarrow> Resolution" where
  "resolveVersion env item isResuming startIndex st =
     (if isResuming \<and> versions item \<noteq> []
      then (case findRaw (versions item) of
              Some existingRaw \<Rightarrow>
                Resolved (vid existingRaw) (content existingRaw) (versions item) st
            | None \<Rightarrow>
                (let newVer = rawVersion (uuidv4 env) NAME_RAW_CONTINUING [] (now env)
                 in Resolved (uuidv4 env) [] (versions item @ [newVer])
                      (addVersionToItem (mid item) newVer True st)))
      else if processedChunks item > 0 \<and> \<not> confirm env
      then Restart (updateItem (mid item)
                      (\<lambda>m. m\<lparr>processedChunks := 0, totalChunks := 0\<rparr>) False st)
      else if startIndex = 0
      then (let newVer = rawVersion (uuidv4 env) NAME_RAW_GENERATING [] (now env)
            in Resolved (uuidv4 env) [] (versions item @ [newVer])
                 (addVersionToItem (mid item) newVer True st))
      else (let existingRaw = findRaw (versions item);
                baseVersionId =
                  (case existingRaw of
                     Some v \<Rightarrow> if vid v = [] then uuidv4 env else vid v
                   | None \<Rightarrow> uuidv4 env);
                fullTranscript = (case existingRaw of Some v \<Rightarrow> content v | None \<Rightarrow> [])
            in Resolved baseVersionId fullTranscript (versions item) st))"

text \<open>
  \<open>startTranscription(item, isResuming)\<close>: the two guards, the start index, the status
  update, the version block, then the \<open>try\<close> block, or the recursive call
  \<open>startTranscription({...item, processedChunks: 0}, false)\<close>. \<open>item\<close> is the caller's
  snapshot; the queue in the state is the live one. The \<open>alert\<close> of the second guard
  changes no state and is left out.
\<close>

function startTranscription :: "Env \<Rightarrow> MediaItem \<Rightarrow> bool \<Rightarrow> AppState \<Rightarrow> AppState" where
  "startTranscription env item isResuming st =
     (if apiKey st = [] then st\<lparr>showKeyModal := True\<rparr>
      else
        (case itemFile item of
           None \<Rightarrow> st
         | Some f \<Rightarrow>
             (let startIndex = processedChunks item;
                  st1 = updateItem (mid item) (\<lambda>m. m\<lparr>status := Processing, error := None\<rparr>) True st
              in case resolveVersion env item isResuming startIndex st1 of
                   Restart st2 \<Rightarrow> startTranscription env (item\<lparr>processedChunks := 0\<rparr>) False st2
                 | Resolved baseVersionId fullTranscript initialVersions st2 \<Rightarrow>
                     runTranscription env item f startIndex baseVersionId fullTranscript
                       initialVersions st2)))"
  by pat_completeness auto
termination
  by (relation "measure (\<lambda>(env, item, isResuming, st). processedChunks item)")
     (auto simp: resolveVersion_def Let_def split: if_splits option.splits)

declare startTranscription.simps [simp del]

section \<open>Stage runs\<close>

text \<open>The \<open>switch\<close> of \<open>runStage\<close>; a stage without a \<open>case\<close> keeps the empty name.\<close>

definition stageName :: "ProcessingStage \<Rightarrow> string" where
  "stageName stg =
     (case stg of
        ARABIC \<Rightarrow> ''diacritics added''
      | TITLES \<Rightarrow> ''titled''
      | FORMAL \<Rightarrow> ''formalised''
      | CUSTOM \<Rightarrow> ''custom edit''
      | RAW \<Rightarrow> [])"

text \<open>One firing of the progress timer.\<close>

definition tickProgress :: "string \<Rightarrow> AppState \<Rightarrow> AppState" where
  "tickProgress a st =
     (case findItem a (mediaQueue st) of
        None \<Rightarrow> st
      | Some item \<Rightarrow>
          (if status item \<noteq> Processing then st
           else st\<lparr>mediaQueue :=
                     map (\<lambda>i. if mid i = a then i\<lparr>progress := min (progress item + 5) 95\<rparr> else i)
                       (mediaQueue st)\<rparr>))"

text \<open>\<open>mediaQueue.find(i => i.id === activeItemId) || null\<close>.\<close>

definition activeItem :: "AppState \<Rightarrow> MediaItem option" where
  "activeItem st =
     (case activeItemId st of None \<Rightarrow> None | Some a \<Rightarrow> findItem a (mediaQueue st))"

text \<open>
  \<open>runStage\<close> up to the remote call: the guards, the placeholder version and the status.
  \<open>None\<close> is the silent return; otherwise the snapshot of the active item, the parent version,
  the new version and the state while the call is outstanding.
\<close>

definition beginStage ::
  "Env \<Rightarrow> ProcessingStage \<Rightarrow> string \<Rightarrow> string option \<Rightarrow> AppState \<Rightarrow>
   (MediaItem \<times> Version \<times> Version \<times> AppState) option" where
  "beginStage env stg parentVersionId customPrompt st =
     (case activeItem st of
        None \<Rightarrow> None
      | Some item \<Rightarrow>
          (if apiKey st = [] then None
           else
             (case findVersion parentVersionId (versions item) of
                None \<Rightarrow> None
              | Some parentVersion \<Rightarrow>
                  (let newVersion =
                         \<lparr>vid = uuidv4 env, stage = stg,
                          name = stageName stg @ SUFFIX_PROCESSING,
                          content = CONTENT_PLEASE_WAIT, parentId = Some parentVersionId,
                          timestamp = now env, promptUsed = customPrompt\<rparr>;
                       st1 = addVersionToItem (mid item) newVersion True st;
                       st2 = updateItem (mid item)
                               (\<lambda>m. m\<lparr>status := Processing, progress := 0\<rparr>) True st1
                   in Some (item, parentVersion, newVersion, st2)))))"

text \<open>The rest of \<open>runStage\<close>: timer firings, the remote call, then \<open>try\<close> or \<open>catch\<close>.\<close>

definition finishStage ::
  "Env \<Rightarrow> ProcessingStage \<Rightarrow> string option \<Rightarrow> MediaItem \<Rightarrow> Version \<Rightarrow> Version \<Rightarrow> AppState \<Rightarrow>
   AppState" where
  "finishStage env stg customPrompt item parentVersion newVersion st =
     (let st3 = (tickProgress (mid item) ^^ ticks env) st
      in case fst (processTextStage (generateText env) (cleanResponse env) (apiKey st)
                     (content parentVersion) stg (selectedModel st) customPrompt) of
           Inr result \<Rightarrow>
             (let st4 = st3\<lparr>mediaQueue :=
                              map (\<lambda>qItem. if mid qItem \<noteq> mid item then qItem
                                           else qItem\<lparr>status := Completed, progress := 100,
                                                  versions :=
                                                    map (\<lambda>v. if vid v = vid newVersion
                                                              then v\<lparr>content := result,
                                                                     name := stageName stg\<rparr>
                                                              else v) (versions qItem)\<rparr>)
                                (mediaQueue st3),
                            syncStatus := SyncIdle\<rparr>;
                  finalVersions =
                    versions item @ [newVersion\<lparr>content := result, name := stageName stg\<rparr>];
                  finalItemToSave =
                    item\<lparr>status := Completed, progress := 100, versions := finalVersions\<rparr>
              in handleSaveToCloud env finalItemToSave True st4)
         | Inl err \<Rightarrow>
             (let st4 = updateItem (mid item)
                          (\<lambda>m. m\<lparr>status := Errored, progress := 0\<rparr>) True st3
              in patchVersions (mid item)
                   (\<lambda>v. v\<lparr>content := CONTENT_STAGE_FAILED,
                           name := stageName stg @ SUFFIX_FAILED\<rparr>)
                   (vid newVersion) st4))"

definition runStage ::
  "Env \<Rightarrow> ProcessingStage \<Rightarrow> string \<Rightarrow> string option \<Rightarrow> AppState \<Rightarrow> AppState" where
  "runStage env stg parentVersionId customPrompt st =
     (case beginStage env stg parentVersionId customPrompt st of
        None \<Rightarrow> st
      | Some (item, parentVersion, newVersion, st2) \<Rightarrow>
          finishStage env stg customPrompt item parentVersion newVersion st2)"

section \<open>Notions used in the statements\<close>

text \<open>The calls and sleeps spent on one model when all three attempts fail.\<close>

definition backoffSchedule :: "string \<Rightarrow> Event list" where
  "backoffSchedule m =
     [Attempt m 1, Backoff 1000, Attempt m 2, Backoff 2000, Attempt m 3, Backoff 4000]"

text \<open>The placeholder version \<open>runStage\<close> appends, and the outcome of its remote call.\<close>

definition stageVersion :: "Env \<Rightarrow> ProcessingStage \<Rightarrow> string \<Rightarrow> string option \<Rightarrow> Version" where
  "stageVersion env stg pid cp =
     \<lparr>vid = uuidv4 env, stage = stg, name = stageName stg @ SUFFIX_PROCESSING,
      content = CONTENT_PLEASE_WAIT, parentId = Some pid, timestamp = now env, promptUsed = cp\<rparr>"

definition stageOutcome ::
  "Env \<Rightarrow> AppState \<Rightarrow> Version \<Rightarrow> ProcessingStage \<Rightarrow> string option \<Rightarrow> js_error + string" where
  "stageOutcome env st p stg cp =
     fst (processTextStage (generateText env) (cleanResponse env) (apiKey st) (content p) stg
            (selectedModel st) cp)"

text \<open>
  The payload of chunk \<open>i\<close> (slice, then base64) and the outcome of the iteration's remote
  step: the error of the slicing, of the reader or of \<open>transcribeSegment\<close>, or the text.
\<close>

definition chunkPayload :: "Env \<Rightarrow> AudioBuffer \<Rightarrow> nat \<Rightarrow> js_error + string" where
  "chunkPayload env audioBuffer i =
     (case sliceAudioBuffer (lamejs env) audioBuffer (real i * CHUNK_DURATION) CHUNK_DURATION of
        Inl e \<Rightarrow> Inl e
      | Inr chunkBlob \<Rightarrow> blobToBase64 env chunkBlob)"

definition transcribeChunk :: "Env \<Rightarrow> string \<Rightarrow> string \<Rightarrow> AudioBuffer \<Rightarrow> nat \<Rightarrow> js_error + string" where
  "transcribeChunk env key model audioBuffer i =
     (case chunkPayload env audioBuffer i of
        Inl e \<Rightarrow> Inl e
      | Inr chunkBase64 \<Rightarrow>
          fst (transcribeSegment (generateContent env i) (cleanResponse env) key chunkBase64
                 ''audio/mp3'' model))"

text \<open>\<open>fullTranscript += chunkText + " "\<close> for the chunks \<open>i\<close> up to \<open>k - 1\<close>.\<close>

definition appendChunks :: "(nat \<Rightarrow> string) \<Rightarrow> string \<Rightarrow> nat \<Rightarrow> nat \<Rightarrow> string" where
  "appendChunks t seed i k = foldl (\<lambda>acc j. acc @ t j @ '' '') seed [i..<k]"

text \<open>
  Readers of a blob: its length in seconds (0 for the empty blob) and its offset. The blob
  \<open>sliceAudioBuffer\<close> returns for the request of iteration \<open>i\<close>,
  \<open>sliceAudioBuffer(audioBuffer, i * CHUNK_DURATION, CHUNK_DURATION)\<close>, when it returns one;
  and these blobs for the iterations from 0 below \<open>Math.ceil(duration / CHUNK_DURATION)\<close>.
\<close>

definition windowLength :: "Blob \<Rightarrow> real" where
  "windowLength b = (case b of EmptyBlob \<Rightarrow> 0 | Mp3 start len \<Rightarrow> len)"

definition windowStart :: "Blob \<Rightarrow> real option" where
  "windowStart b = (case b of EmptyBlob \<Rightarrow> None | Mp3 start len \<Rightarrow> Some start)"

definition chunkWindow :: "AudioBuffer \<Rightarrow> nat \<Rightarrow> Blob" where
  "chunkWindow d i =
     (case sliceAudioBuffer True d (real i * CHUNK_DURATION) CHUNK_DURATION of
        Inr b \<Rightarrow> b | Inl e \<Rightarrow> EmptyBlob)"

definition windows :: "AudioBuffer \<Rightarrow> Blob list" where
  "windows d = map (chunkWindow d) [0..<chunkCount d]"

text \<open>The live item after the checkpoint of chunk \<open>k - 1\<close>.\<close>

definition checkpoint :: "string \<Rightarrow> nat \<Rightarrow> nat \<Rightarrow> string \<Rightarrow> MediaItem \<Rightarrow> MediaItem" where
  "checkpoint b tot k full x =
     x\<lparr>progress := js_round (real k / real tot * 100), processedChunks := k,
       versions := map (\<lambda>v. if vid v = b then v\<lparr>content := full, name := NAME_RAW_COMPLETING\<rparr>
                             else v) (versions x)\<rparr>"

text \<open>
  The state after the iterations \<open>i\<close> up to \<open>k - 1\<close> committed their chunks of the buffer
  \<open>buf\<close>: the checkpoint of the last one, and the chunks sliced and sent.
\<close>

definition commitState ::
  "AudioBuffer \<Rightarrow> string \<Rightarrow> string \<Rightarrow> nat \<Rightarrow> nat \<Rightarrow> nat \<Rightarrow> string \<Rightarrow> AppState \<Rightarrow> AppState" where
  "commitState buf a b tot i k full st =
     (if i < k
      then st\<lparr>mediaQueue := map (\<lambda>x. if mid x = a then checkpoint b tot k full x else x)
                               (mediaQueue st),
              sent := sent st @ [i..<k],
              slices := slices st @ map (chunkWindow buf) [i..<k]\<rparr>
      else st)"

text \<open>
  The state in which the loop starts: the decoded duration and total are stored first
  when the start index is 0 or the item has no duration yet.
\<close>

definition decodedState :: "MediaItem \<Rightarrow> AudioBuffer \<Rightarrow> nat \<Rightarrow> AppState \<Rightarrow> AppState" where
  "decodedState item d s st =
     (if s = 0 \<or> duration item = 0
      then updateItem (mid item) (\<lambda>m. m\<lparr>duration := d, totalChunks := chunkCount d\<rparr>) False st
      else st)"

text \<open>The state when the remote call of chunk \<open>i\<close> throws, and what the \<open>catch\<close> makes of it.\<close>

definition failState ::
  "AudioBuffer \<Rightarrow> MediaItem \<Rightarrow> string \<Rightarrow> nat \<Rightarrow> nat \<Rightarrow> nat \<Rightarrow> string \<Rightarrow> js_error \<Rightarrow> AppState \<Rightarrow>
   AppState" where
  "failState buf item b tot s i full e st =
     updateItem (mid item)
       (\<lambda>m. m\<lparr>status := Paused, error := Some (errorMessage e), progress := progress item\<rparr>) True
       ((commitState buf (mid item) b tot s i full st)
          \<lparr>mediaQueue :=
             map (\<lambda>x. if mid x = mid item
                       then x\<lparr>progress := js_round (real i / real tot * 100)\<rparr> else x)
               (mediaQueue (commitState buf (mid item) b tot s i full st)),
           slices := slices (commitState buf (mid item) b tot s i full st) @ [chunkWindow buf i],
           sent := sent (commitState buf (mid item) b tot s i full st) @ [i]\<rparr>)"

text \<open>The state after the first update of \<open>startTranscription\<close>.\<close>

definition processingState :: "MediaItem \<Rightarrow> AppState \<Rightarrow> AppState" where
  "processingState item st =
     updateItem (mid item) (\<lambda>m. m\<lparr>status := Processing, error := None\<rparr>) True st"

text \<open>The branch of the version block that declines to continue.\<close>

definition restarts :: "Env \<Rightarrow> MediaItem \<Rightarrow> bool \<Rightarrow> bool" where
  "restarts env item isResuming =
     (\<not> (isResuming \<and> versions item \<noteq> []) \<and> 0 < processedChunks item \<and> \<not> confirm env)"

text \<open>
  The index at which the loop of an invocation starts, and the bound it runs to: the
  stored total unless the \<open>try\<close> block computes it, which it does when the start index
  is 0, or the item has no duration, or the stored total is 0.
\<close>

definition firstChunk :: "Env \<Rightarrow> MediaItem \<Rightarrow> bool \<Rightarrow> nat" where
  "firstChunk env item isResuming = (if restarts env item isResuming then 0 else processedChunks item)"

definition loopTotal :: "MediaItem \<Rightarrow> AudioBuffer \<Rightarrow> nat \<Rightarrow> nat" where
  "loopTotal item d s =
     (if s = 0 \<or> duration item = 0 \<or> totalChunks item = 0 then chunkCount d else totalChunks item)"

text \<open>A pause from outside: some other handler sets the live item to \<open>paused\<close>.\<close>

definition userPause :: "string \<Rightarrow> MediaItem list \<Rightarrow> MediaItem list" where
  "userPause a q = map (\<lambda>x. if mid x = a then x\<lparr>status := Paused\<rparr> else x) q"

text \<open>The patch of the loop on the versions with the base identifier.\<close>

definition patchContent :: "string \<Rightarrow> string \<Rightarrow> Version list \<Rightarrow> Version list" where
  "patchContent b full vs =
     map (\<lambda>v. if vid v = b then v\<lparr>content := full, name := NAME_RAW_COMPLETING\<rparr> else v) vs"

section \<open>Example inputs\<close>

text \<open>A remote that rejects every call, for audio and for text.\<close>

definition remoteDown :: "nat \<Rightarrow> string \<Rightarrow> string \<Rightarrow> js_error + string option" where
  "remoteDown n model dat = Inl (Error ''503 unavailable'')"

definition remoteTextDown ::
  "nat \<Rightarrow> string \<Rightarrow> ProcessingStage \<Rightarrow> string \<Rightarrow> string option \<Rightarrow> js_error + string option" where
  "remoteTextDown n model stg txt prompt = Inl (Error ''503 unavailable'')"

text \<open>
  Three storage services: one where the existence check fails, one where the row exists
  and the delete affects no row, one where the delete affects the row.
\<close>

definition storageMissing :: Storage where
  "storageMissing = \<lparr>checkError = (\<lambda>i. Some ''no rows''), deleteResponse = (\<lambda>i. (None, Some 1))\<rparr>"

definition storageBlocked :: Storage where
  "storageBlocked = \<lparr>checkError = (\<lambda>i. None), deleteResponse = (\<lambda>i. (None, Some 0))\<rparr>"

definition storageOpen :: Storage where
  "storageOpen = \<lparr>checkError = (\<lambda>i. None), deleteResponse = (\<lambda>i. (None, Some 1))\<rparr>"

text \<open>
  A completed item with one RAW version, the state holding it (with and without an API
  key), an environment where every remote call succeeds and one where every call fails.
\<close>

definition exRaw :: Version where
  "exRaw = rawVersion ''v1'' NAME_RAW_COMPLETE ''salam donya '' 0"

definition exItem :: MediaItem where
  "exItem = \<lparr>mid = ''a'', itemFile = Some (File ''talk.mp3''), duration = 500, status = Completed,
     progress = 100, currentVersionId = Some ''v1'', versions = [exRaw], error = None,
     processedChunks = 3, totalChunks = 3\<rparr>"

definition exState :: AppState where
  "exState = \<lparr>apiKey = ''key'', selectedModel = ''gemini-2.5-pro-preview'', mediaQueue = [exItem],
     activeItemId = Some ''a'', showKeyModal = False, syncStatus = SyncSaved, sent = [],
     saved = [], slices = []\<rparr>"

definition exStateNoKey :: AppState where
  "exStateNoKey = exState\<lparr>apiKey := []\<rparr>"

definition exEnv :: Env where
  "exEnv = \<lparr>confirm = True, uuidv4 = ''v2'', now = 1, decodeAudioFile = (\<lambda>f. Inr 500),
     lamejs = True, blobToBase64 = (\<lambda>b. Inr ''AAAA''),
     generateContent = (\<lambda>i n m d. Inr (Some ''matn'')),
     generateText = (\<lambda>n m s t p. Inr (Some ''matn-e rasmi'')),
     cleanResponse = (\<lambda>s. s), external = (\<lambda>i q. q), saveFails = (\<lambda>m. False), ticks = 2\<rparr>"

definition exEnvDown :: Env where
  "exEnvDown = exEnv\<lparr>generateContent := (\<lambda>i. remoteDown), generateText := remoteTextDown\<rparr>"

text \<open>
  An item interrupted after its first chunk of three (500 seconds of audio), the state
  holding it, and an environment where the user declines to continue.
\<close>

definition exPartRaw :: Version where
  "exPartRaw = rawVersion ''v1'' NAME_RAW_COMPLETING ''matn '' 0"

definition exPartItem :: MediaItem where
  "exPartItem = \<lparr>mid = ''a'', itemFile = Some (File ''talk.mp3''), duration = 500, status = Idle,
     progress = 33, currentVersionId = Some ''v1'', versions = [exPartRaw], error = None,
     processedChunks = 1, totalChunks = 3\<rparr>"

definition exPartState :: AppState where
  "exPartState = \<lparr>apiKey = ''key'', selectedModel = ''gemini-2.5-pro-preview'',
     mediaQueue = [exPartItem], activeItemId = Some ''a'', showKeyModal = False,
     syncStatus = SyncIdle, sent = [], saved = [], slices = []\<rparr>"


text \<open>The interrupted item again, now marked \<open>processing\<close> in the snapshot and in the queue.\<close>

definition exBusyItem :: MediaItem where
  "exBusyItem = exPartItem\<lparr>status := Processing\<rparr>"

definition exBusyState :: AppState where
  "exBusyState = exPartState\<lparr>mediaQueue := [exBusyItem]\<rparr>"

text \<open>
  A freshly uploaded item (500 seconds of audio, nothing processed), the state holding it,
  and an environment where the remote rejects every call for chunk 1 and answers the
  other chunks.
\<close>

definition exFreshItem :: MediaItem where
  "exFreshItem = \<lparr>mid = ''a'', itemFile = Some (File ''talk.mp3''), duration = 0, status = Idle,
     progress = 0, currentVersionId = None, versions = [], error = None,
     processedChunks = 0, totalChunks = 0\<rparr>"

definition exFreshState :: AppState where
  "exFreshState = \<lparr>apiKey = ''key'', selectedModel = ''gemini-2.5-pro-preview'',
     mediaQueue = [exFreshItem], activeItemId = Some ''a'', showKeyModal = False,
     syncStatus = SyncIdle, sent = [], saved = [], slices = []\<rparr>"

definition exEnvFailAt1 :: Env where
  "exEnvFailAt1 =
     exEnv\<lparr>generateContent := (\<lambda>i. if i = 1 then remoteDown else (\<lambda>n m d. Inr (Some ''matn'')))\<rparr>"

text \<open>An environment where the item is paused from outside before iteration 1.\<close>

definition exEnvPauseAt1 :: Env where
  "exEnvPauseAt1 = exEnv\<lparr>external := (\<lambda>i. if i = 1 then userPause ''a'' else (\<lambda>q. q))\<rparr>"










section \<open>Retry and fallback\<close>

lemma uniqueFrom_filter:
  "distinct xs \<Longrightarrow> uniqueFrom seen xs = filter (\<lambda>x. x \<notin> set seen) xs"
  by (induction xs arbitrary: seen) (auto intro!: filter_cong)

lemma uniqueFrom_set: "set (uniqueFrom seen xs) = set xs - set seen"
  by (induction xs arbitrary: seen) auto

lemma uniqueFrom_notin: "x \<in> set seen \<Longrightarrow> x \<notin> set (uniqueFrom seen xs)"
  by (simp add: uniqueFrom_set)

lemma uniqueFrom_distinct2: "distinct (uniqueFrom seen xs)"
  by (induction xs arbitrary: seen) (auto simp: uniqueFrom_set)

lemma uniqueModels_eq: "uniqueModels sel = sel # filter (\<lambda>m. m \<noteq> sel) (tl (MODELS_TO_TRY sel))"
proof -
  have d: "distinct (tl (MODELS_TO_TRY sel))" by (simp add: MODELS_TO_TRY_def)
  have "uniqueModels sel = sel # uniqueFrom [sel] (tl (MODELS_TO_TRY sel))"
    by (simp add: uniqueModels_def MODELS_TO_TRY_def)
  also have "uniqueFrom [sel] (tl (MODELS_TO_TRY sel)) = filter (\<lambda>m. m \<noteq> sel) (tl (MODELS_TO_TRY sel))"
    using uniqueFrom_filter[OF d, of "[sel]"] by simp
  finally show ?thesis .
qed

lemma attemptLoop_all_fail:
  assumes "\<And>n. gen n model = Inl (err n)"
  shows "attemptLoop gen clean model as s =
     (None, s\<lparr>calls := calls s + length as,
              lastError := (if as = [] then lastError s else Some (err (calls s + length as - 1))),
              trace := trace s @ concat (map (\<lambda>a. [Attempt model a, Backoff (1000 * 2 ^ (a - 1))]) as)\<rparr>)"
  using assms
  by (induction as arbitrary: s) (auto)

lemma modelLoop_all_fail:
  assumes "\<And>n m. gen n m = Inl (err n m)"
  shows "modelLoop gen clean ms s =
     (None, s\<lparr>calls := calls s + 3 * length ms,
              lastError := (if ms = [] then lastError s else Some (err (calls s + 3 * length ms - 1) (last ms))),
              trace := trace s @ concat (map (\<lambda>m. [Attempt m 1, Backoff 1000, Attempt m 2, Backoff 2000,
                                                    Attempt m 3, Backoff 4000]) ms)\<rparr>)"
proof (induction ms arbitrary: s)
  case Nil
  show ?case by simp
next
  case (Cons m ms)
  have a: "\<And>n. gen n m = Inl (err n m)" using assms by simp
  note step = attemptLoop_all_fail[where err="\<lambda>n. err n m" and gen=gen and model=m, OF a]
  show ?case
    by (simp add: step Cons.IH del: attemptLoop.simps)
qed

lemma textLoop_all_fail:
  assumes "\<And>n m. gen n m = Inl (err n m)"
    and "ms \<noteq> []" and "last ms = lastModel" and "lastModel \<notin> set (butlast ms)"
  shows "textLoop gen clean lastModel ms s =
     (Inl (err (calls s + length ms - 1) lastModel),
      s\<lparr>calls := calls s + length ms, trace := trace s @ map (\<lambda>m. Attempt m 1) ms\<rparr>)"
  using assms(2-)
proof (induction ms arbitrary: s)
  case Nil
  then show ?case by simp
next
  case (Cons m ms)
  show ?case
  proof (cases "ms = []")
    case True
    with Cons.prems show ?thesis by (simp add: assms(1))
  next
    case False
    with Cons.prems have "m \<noteq> lastModel" "last ms = lastModel" "lastModel \<notin> set (butlast ms)"
      by auto
    with False Cons.IH show ?thesis
      by (simp add: assms(1) Let_def)
  qed
qed


text \<open>
  Claim C2, as the code has it. When every remote attempt fails: the candidates are the
  selected model followed by the fallbacks other than it, in order; the transcription call
  makes three attempts per candidate, sleeping 1000, 2000 and 4000 ms after the first,
  second and third failure, so three times the number of candidates in all, and throws the
  last error it saw; the text-stage call makes one attempt per candidate, never sleeps,
  and throws the error of the last candidate, so it makes as many attempts as there are
  candidates.
\<close>

theorem retry_policy_all_fail:
  assumes audio: "\<And>n m. gen n m dat = Inl (err n m)"
    and tfail: "\<And>n m. genT n m stg body prompt = Inl (errT n m)"
    and stg: "stg \<noteq> RAW"
  shows "uniqueModels sel = sel # filter (\<lambda>m. m \<noteq> sel) (tl (MODELS_TO_TRY sel)) \<and>
     transcribeSegment gen clean key dat mime sel =
       (Inl (err (3 * length (uniqueModels sel) - 1) (last (uniqueModels sel))),
        \<lparr>calls = 3 * length (uniqueModels sel),
         lastError = Some (err (3 * length (uniqueModels sel) - 1) (last (uniqueModels sel))),
         trace = concat (map backoffSchedule (uniqueModels sel))\<rparr>) \<and>
     processTextStage genT clean key body stg sel prompt =
       (Inl (errT (length (uniqueModels sel) - 1) (last (uniqueModels sel))),
        \<lparr>calls = length (uniqueModels sel), lastError = None,
         trace = map (\<lambda>m. Attempt m 1) (uniqueModels sel)\<rparr>)"
proof -
  let ?ms = "uniqueModels sel"
  have ne: "?ms \<noteq> []" by (simp add: uniqueModels_eq)
  have d: "distinct ?ms" by (simp add: uniqueModels_def uniqueFrom_distinct2)
  have nl: "last ?ms \<notin> set (butlast ?ms)"
    using d ne by (metis append_butlast_last_id distinct_butlast distinct.simps(2) distinct_append not_distinct_conv_prefix rotate1.simps(2) distinct_rotate set_rotate1)
  have a: "\<And>n m. (\<lambda>n model. gen n model dat) n m = Inl (err n m)" using audio by simp
  have t: "\<And>n m. (\<lambda>n model. genT n model stg body prompt) n m = Inl (errT n m)" using tfail by simp
  have 1: "transcribeSegment gen clean key dat mime sel =
       (Inl (err (3 * length ?ms - 1) (last ?ms)),
        \<lparr>calls = 3 * length ?ms, lastError = Some (err (3 * length ?ms - 1) (last ?ms)),
         trace = concat (map backoffSchedule ?ms)\<rparr>)"
    using ne
    by (simp add: transcribeSegment_def modelLoop_all_fail[where err=err, OF a] initRetry_def
        backoffSchedule_def[abs_def])
  have 2: "processTextStage genT clean key body stg sel prompt =
       (Inl (errT (length ?ms - 1) (last ?ms)),
        \<lparr>calls = length ?ms, lastError = None, trace = map (\<lambda>m. Attempt m 1) ?ms\<rparr>)"
    using stg
    by (simp add: processTextStage_def textLoop_all_fail[where err=errT, OF t ne refl nl] initRetry_def)
  show ?thesis using 1 2 uniqueModels_eq by simp
qed

theorem retry_policy_all_fail_witness:
  "calls (snd (transcribeSegment remoteDown id ''key'' ''AAAA'' ''audio/mp3'' ''gemini-2.5-pro-preview'')) = 15 \<and>
   calls (snd (processTextStage remoteTextDown id ''key'' ''salam'' FORMAL ''gemini-2.5-pro-preview'' None)) = 5"
  using retry_policy_all_fail [where gen=remoteDown and dat="''AAAA''"
      and err="\<lambda>n m. Error ''503 unavailable''" and genT=remoteTextDown and stg=FORMAL
      and body="''salam''" and prompt=None and errT="\<lambda>n m. Error ''503 unavailable''"
      and sel="''gemini-2.5-pro-preview''" and clean=id and key="''key''" and mime="''audio/mp3''"]
  by (simp add: remoteDown_def remoteTextDown_def MODELS_TO_TRY_def)

text \<open>
  Claim C2 as stated fails for the text-stage call: with every attempt failing it makes
  5 attempts for the 5 candidates, not 3 times 5.
\<close>

theorem text_stage_retry_counterexample:
  "calls (snd (processTextStage remoteTextDown id ''key'' ''salam'' FORMAL
                 ''gemini-2.5-pro-preview'' None)) = 5 \<and>
   3 * length (uniqueModels ''gemini-2.5-pro-preview'') = 15 \<and>
   trace (snd (processTextStage remoteTextDown id ''key'' ''salam'' FORMAL
                 ''gemini-2.5-pro-preview'' None)) =
     [Attempt ''gemini-2.5-pro-preview'' 1, Attempt ''gemini-3-flash-preview'' 1,
      Attempt ''gemini-2.5-flash-preview'' 1, Attempt ''gemini-2.0-flash-exp'' 1,
      Attempt ''gemini-1.5-flash'' 1]"
  by (simp add: processTextStage_def uniqueModels_def MODELS_TO_TRY_def remoteTextDown_def
      initRetry_def)

section \<open>Chunk windows\<close>

lemma sum_list_const_upt:
  "(\<And>i. i < m \<Longrightarrow> f i = c) \<Longrightarrow> sum_list (map f [0..<m]) = real m * c"
  by (induction m) (auto simp: algebra_simps)

lemma chunkCount_bounds:
  assumes "0 < d"
  shows "0 < chunkCount d" "real (chunkCount d - 1) * 240 < d" "d \<le> real (chunkCount d) * 240"
proof -
  define q where "q = d / 240"
  have d: "d = q * 240" by (simp add: q_def)
  have c: "0 < \<lceil>q\<rceil>" using assms by (simp add: q_def)
  have cc: "chunkCount d = nat \<lceil>q\<rceil>" by (simp add: chunkCount_def CHUNK_DURATION_def q_def)
  show p: "0 < chunkCount d" using c cc by simp
  have r: "real (chunkCount d) = of_int \<lceil>q\<rceil>" using c cc by simp
  have r1: "real (chunkCount d - 1) = of_int \<lceil>q\<rceil> - 1" using p r by (simp add: of_nat_diff)
  have lo: "of_int \<lceil>q\<rceil> - 1 < q" by linarith
  have hi: "q \<le> of_int \<lceil>q\<rceil>" by linarith
  have "(of_int \<lceil>q\<rceil> - 1) * 240 < q * 240" using lo by (simp only: mult_less_cancel_right_pos zero_less_numeral)
  moreover have "q * 240 \<le> of_int \<lceil>q\<rceil> * 240" using hi by (simp only: mult_le_cancel_right_pos zero_less_numeral)
  ultimately show "real (chunkCount d - 1) * 240 < d" "d \<le> real (chunkCount d) * 240"
    using r r1 d by simp_all
qed

lemma chunkWindow_eq:
  assumes "0 < d" "i < chunkCount d"
  shows "chunkWindow d i =
     Mp3 (real i * 240) (if Suc i < chunkCount d then 240 else d - real i * 240)"
proof -
  have lt: "real i * 240 < d"
  proof -
    have "real i \<le> real (chunkCount d - 1)" using assms(2) by simp
    then have "real i * 240 \<le> real (chunkCount d - 1) * 240" by simp
    then show ?thesis using chunkCount_bounds(2)[OF assms(1)] by linarith
  qed
  show ?thesis
  proof (cases "Suc i < chunkCount d")
    case True
    then have "real (Suc i) \<le> real (chunkCount d - 1)" by simp
    then have "real (Suc i) * 240 \<le> real (chunkCount d - 1) * 240" by (simp only: mult_right_mono)
    then have "real i * 240 + 240 < d" using chunkCount_bounds(2)[OF assms(1)] by (simp add: algebra_simps)
    then show ?thesis using lt True
      by (simp add: chunkWindow_def sliceAudioBuffer_def CHUNK_DURATION_def Let_def)
  next
    case False
    then have "Suc i = chunkCount d" using assms(2) by simp
    then have "d \<le> real (Suc i) * 240" using chunkCount_bounds(3)[OF assms(1)] by simp
    then have "d - real i * 240 \<le> 240" by (simp add: algebra_simps)
    then show ?thesis using lt False
      by (simp add: chunkWindow_def sliceAudioBuffer_def CHUNK_DURATION_def Let_def min_def)
  qed
qed

text \<open>
  The blobs \<open>sliceAudioBuffer\<close> returns for the requests \<open>i * 240\<close>, with \<open>i\<close> below
  \<open>ceil(d / 240)\<close>: blob \<open>i\<close> starts at \<open>i * 240\<close>, every blob but the last is 240 seconds
  long, the last is \<open>min(240, d - i * 240)\<close> long, and the lengths add up to \<open>d\<close>.
\<close>

lemma windows_partition:
  assumes "0 < d"
  shows "length (windows d) = nat \<lceil>d / 240\<rceil> \<and>
     (\<forall>i < length (windows d).
        windowStart (windows d ! i) = Some (real i * 240) \<and>
        windowLength (windows d ! i) =
          (if Suc i < length (windows d) then 240 else min 240 (d - real i * 240))) \<and>
     sum_list (map windowLength (windows d)) = d"
proof -
  let ?n = "chunkCount d"
  have len: "length (windows d) = ?n" by (simp add: windows_def)
  have n: "?n = nat \<lceil>d / 240\<rceil>" by (simp add: chunkCount_def CHUNK_DURATION_def)
  have lastle: "d - real (?n - 1) * 240 \<le> 240"
    using chunkCount_bounds[OF assms] by (simp add: of_nat_diff algebra_simps)
  have each: "\<And>i. i < ?n \<Longrightarrow> windowStart (windows d ! i) = Some (real i * 240) \<and>
        windowLength (windows d ! i) = (if Suc i < ?n then 240 else min 240 (d - real i * 240))"
  proof -
    fix i assume i: "i < ?n"
    have w: "windows d ! i = chunkWindow d i" using i by (simp add: windows_def)
    show "windowStart (windows d ! i) = Some (real i * 240) \<and>
        windowLength (windows d ! i) = (if Suc i < ?n then 240 else min 240 (d - real i * 240))"
    proof (cases "Suc i < ?n")
      case True
      then show ?thesis using chunkWindow_eq[OF assms i] w
        by (simp add: windowStart_def windowLength_def)
    next
      case False
      then have "i = ?n - 1" using i by simp
      then have "d - real i * 240 \<le> 240" using lastle by simp
      then show ?thesis using chunkWindow_eq[OF assms i] w False
        by (simp add: windowStart_def windowLength_def min_def)
    qed
  qed
  obtain m where m: "?n = Suc m" using chunkCount_bounds(1)[OF assms] by (cases ?n) auto
  have pre: "\<And>i. i < m \<Longrightarrow> windowLength (chunkWindow d i) = 240"
    using chunkWindow_eq[OF assms] m by (simp add: windowLength_def)
  have lastw: "windowLength (chunkWindow d m) = d - real m * 240"
    using chunkWindow_eq[OF assms, of m] m by (simp add: windowLength_def)
  have "sum_list (map windowLength (windows d)) =
        sum_list (map (\<lambda>i. windowLength (chunkWindow d i)) [0..<m]) + windowLength (chunkWindow d m)"
    by (simp add: windows_def m comp_def)
  also have "\<dots> = real m * 240 + (d - real m * 240)"
    using sum_list_const_upt[of m "\<lambda>i. windowLength (chunkWindow d i)" 240, OF pre] lastw by simp
  finally have total: "sum_list (map windowLength (windows d)) = d" by simp
  show ?thesis using len n each total by simp
qed

section \<open>Deleting a saved project\<close>

text \<open>
  Claim C9. When the existence check reports an error, the function throws the not-found
  error after the select alone, without a delete call. When the check passes and the
  delete reports no error but a count of zero or null, it throws the distinct
  policy-blocked error. It returns \<open>true\<close> exactly when the check passes and the delete
  reports no error and a positive count.
\<close>

theorem delete_outcomes:
  "(checkError db i \<noteq> None \<longrightarrow>
      deleteProjectFromSupabase db i = (Inl NotFound, [SelectId i])) \<and>
   (checkError db i = None \<and> fst (deleteResponse db i) = None \<and>
      (snd (deleteResponse db i) = Some 0 \<or> snd (deleteResponse db i) = None) \<longrightarrow>
      fst (deleteProjectFromSupabase db i) = Inl PolicyBlocked) \<and>
   (fst (deleteProjectFromSupabase db i) = Inr True \<longleftrightarrow>
      checkError db i = None \<and> (\<exists>n. 0 < n \<and> deleteResponse db i = (None, Some n)))"
  by (cases "deleteResponse db i") (auto simp: deleteProjectFromSupabase_def split: option.splits)

theorem delete_outcomes_witness:
  "deleteProjectFromSupabase storageMissing ''p1'' = (Inl NotFound, [SelectId ''p1'']) \<and>
   fst (deleteProjectFromSupabase storageBlocked ''p1'') = Inl PolicyBlocked \<and>
   fst (deleteProjectFromSupabase storageOpen ''p1'') = Inr True"
  using delete_outcomes [of storageMissing "''p1''"] delete_outcomes [of storageBlocked "''p1''"]
    delete_outcomes [of storageOpen "''p1''"]
  by (simp add: storageMissing_def storageBlocked_def storageOpen_def)

section \<open>Stage runs and the version list\<close>

lemma find_map_upd:
  "(\<And>x. P x \<Longrightarrow> P (f x)) \<Longrightarrow>
   find P (map (\<lambda>x. if P x then f x else x) q) = map_option f (find P q)"
  by (induction q) auto

lemma findItem_map_upd:
  "(\<And>x. mid (f x) = mid x) \<Longrightarrow>
   findItem a (map (\<lambda>x. if mid x = a then f x else x) q) = map_option f (findItem a q)"
  unfolding findItem_def by (rule find_map_upd) simp

lemma findItem_mid: "findItem a q = Some m \<Longrightarrow> mid m = a"
  unfolding findItem_def by (induction q) (auto split: if_splits)

lemma findItem_mem: "findItem a q = Some m \<Longrightarrow> m \<in> set q"
  unfolding findItem_def by (induction q) (auto split: if_splits)

lemma activeItem_Some: "activeItem st = Some a \<Longrightarrow> findItem (mid a) (mediaQueue st) = Some a"
  by (auto simp: activeItem_def split: option.splits dest: findItem_mid)

lemma ticks_progress_only:
  "\<exists>g. (tickProgress a ^^ n) st =
     st\<lparr>mediaQueue := map (\<lambda>m. if mid m = a then m\<lparr>progress := g m\<rparr> else m) (mediaQueue st)\<rparr>"
proof (induction n)
  case 0
  have "map (\<lambda>m. if mid m = a then m\<lparr>progress := progress m\<rparr> else m) (mediaQueue st) = mediaQueue st"
    by (simp add: map_idI)
  then show ?case by (intro exI[of _ progress]) simp
next
  case (Suc n)
  then obtain g where g: "(tickProgress a ^^ n) st =
      st\<lparr>mediaQueue := map (\<lambda>m. if mid m = a then m\<lparr>progress := g m\<rparr> else m) (mediaQueue st)\<rparr>"
    by blast
  let ?st = "st\<lparr>mediaQueue := map (\<lambda>m. if mid m = a then m\<lparr>progress := g m\<rparr> else m) (mediaQueue st)\<rparr>"
  show ?case
  proof (cases "findItem a (mediaQueue ?st)")
    case None
    then have "tickProgress a ?st = ?st" by (simp add: tickProgress_def)
    then show ?thesis using g by (intro exI[of _ g]) simp
  next
    case (Some item)
    show ?thesis
    proof (cases "status item = Processing")
      case False
      then have "tickProgress a ?st = ?st" using Some by (simp add: tickProgress_def)
      then show ?thesis using g by (intro exI[of _ g]) simp
    next
      case True
      have "tickProgress a ?st =
          st\<lparr>mediaQueue := map (\<lambda>m. if mid m = a then m\<lparr>progress := min (progress item + 5) 95\<rparr> else m) (mediaQueue st)\<rparr>"
        using Some True by (simp add: tickProgress_def comp_def cong: if_cong)
      then show ?thesis using g
        by (intro exI[of _ "\<lambda>m. min (progress item + 5) 95"]) simp
    qed
  qed
qed

lemma beginStage_Some:
  assumes "activeItem st = Some a" "apiKey st \<noteq> []" "findVersion pid (versions a) = Some p"
  shows "beginStage env stg pid cp st =
     Some (a, p, stageVersion env stg pid cp,
           updateItem (mid a) (\<lambda>m. m\<lparr>status := Processing, progress := 0\<rparr>) True
             (addVersionToItem (mid a) (stageVersion env stg pid cp) True st))"
  using assms by (simp add: beginStage_def stageVersion_def Let_def)

lemma beginStage_None:
  "activeItem st = None \<or> apiKey st = [] \<or>
   (\<exists>a. activeItem st = Some a \<and> findVersion pid (versions a) = None) \<Longrightarrow>
   beginStage env stg pid cp st = None"
  by (auto simp: beginStage_def split: option.splits)

lemma runStage_queue:
  assumes a: "activeItem st = Some a" and k: "apiKey st \<noteq> []"
    and p: "findVersion pid (versions a) = Some p"
  shows "\<exists>g. mediaQueue (runStage env stg pid cp st) =
     map (\<lambda>m. if mid m = mid a
               then m\<lparr>versions :=
                        map (\<lambda>v. if vid v = uuidv4 env
                                  then v\<lparr>content := (case stageOutcome env st p stg cp of
                                                        Inl e \<Rightarrow> CONTENT_STAGE_FAILED | Inr r \<Rightarrow> r),
                                         name := (case stageOutcome env st p stg cp of
                                                    Inl e \<Rightarrow> stageName stg @ SUFFIX_FAILED
                                                  | Inr r \<Rightarrow> stageName stg)\<rparr>
                                  else v)
                          (versions m @ [stageVersion env stg pid cp]),
                      currentVersionId := Some (uuidv4 env),
                      status := (case stageOutcome env st p stg cp of
                                   Inl e \<Rightarrow> Errored | Inr r \<Rightarrow> Completed),
                      progress := g m\<rparr>
               else m) (mediaQueue st)"
proof -
  let ?nv = "stageVersion env stg pid cp"
  let ?st2 = "updateItem (mid a) (\<lambda>m. m\<lparr>status := Processing, progress := 0\<rparr>) True
             (addVersionToItem (mid a) ?nv True st)"
  obtain g where g: "(tickProgress (mid a) ^^ ticks env) ?st2 =
      ?st2\<lparr>mediaQueue := map (\<lambda>m. if mid m = mid a then m\<lparr>progress := g m\<rparr> else m) (mediaQueue ?st2)\<rparr>"
    using ticks_progress_only by blast
  have v: "vid ?nv = uuidv4 env" by (simp add: stageVersion_def)
  have k2: "apiKey ?st2 = apiKey st" "selectedModel ?st2 = selectedModel st"
    by (simp_all add: updateItem_def addVersionToItem_def)
  have r: "runStage env stg pid cp st = finishStage env stg cp a p ?nv ?st2"
    by (simp add: runStage_def beginStage_Some[OF a k p])
  show ?thesis
  proof (cases "stageOutcome env st p stg cp")
    case (Inl e)
    then show ?thesis
      unfolding r finishStage_def Let_def g k2
      by (intro exI[of _ "\<lambda>m. 0"])
         (simp add: stageOutcome_def v updateItem_def addVersionToItem_def patchVersions_def
            handleSaveToCloud_def comp_def cong: if_cong)
  next
    case (Inr res)
    then show ?thesis
      unfolding r finishStage_def Let_def g k2
      by (intro exI[of _ "\<lambda>m. 100"])
         (simp add: stageOutcome_def v updateItem_def addVersionToItem_def patchVersions_def
            handleSaveToCloud_def comp_def cong: if_cong)
  qed
qed

lemma find_append_Some: "find P xs = Some x \<Longrightarrow> find P (xs @ ys) = Some x"
  by (induction xs) (auto split: if_splits)

text \<open>
  Claim C7. A stage run (any stage, success or failure) leaves every version that existed
  before it unchanged and in place, in every item of the queue, whatever the item's status
  and so in particular after \<open>completed\<close>: the old version list is a prefix of the new
  one, at most one version is appended, and the RAW version found before is the RAW
  version found after. The identifier drawn by \<open>uuidv4()\<close> is new.
\<close>

theorem stage_run_keeps_versions:
  assumes fresh: "\<forall>m \<in> set (mediaQueue st). \<forall>v \<in> set (versions m). vid v \<noteq> uuidv4 env"
  shows "length (mediaQueue (runStage env stg pid cp st)) = length (mediaQueue st) \<and>
     (\<forall>j < length (mediaQueue st).
        take (length (versions (mediaQueue st ! j)))
          (versions (mediaQueue (runStage env stg pid cp st) ! j)) = versions (mediaQueue st ! j) \<and>
        length (versions (mediaQueue (runStage env stg pid cp st) ! j))
          \<le> Suc (length (versions (mediaQueue st ! j))) \<and>
        (\<forall>r. findRaw (versions (mediaQueue st ! j)) = Some r \<longrightarrow>
             findRaw (versions (mediaQueue (runStage env stg pid cp st) ! j)) = Some r))"
proof (cases "beginStage env stg pid cp st")
  case None
  then have "runStage env stg pid cp st = st" by (simp add: runStage_def)
  then show ?thesis by simp
next
  case (Some t)
  then obtain a p where a: "activeItem st = Some a" and k: "apiKey st \<noteq> []"
    and p: "findVersion pid (versions a) = Some p"
    by (auto simp: beginStage_def split: option.splits if_splits)
  obtain g where q: "mediaQueue (runStage env stg pid cp st) =
     map (\<lambda>m. if mid m = mid a
               then m\<lparr>versions :=
                        map (\<lambda>v. if vid v = uuidv4 env
                                  then v\<lparr>content := (case stageOutcome env st p stg cp of
                                                        Inl e \<Rightarrow> CONTENT_STAGE_FAILED | Inr r \<Rightarrow> r),
                                         name := (case stageOutcome env st p stg cp of
                                                    Inl e \<Rightarrow> stageName stg @ SUFFIX_FAILED
                                                  | Inr r \<Rightarrow> stageName stg)\<rparr>
                                  else v)
                          (versions m @ [stageVersion env stg pid cp]),
                      currentVersionId := Some (uuidv4 env),
                      status := (case stageOutcome env st p stg cp of
                                   Inl e \<Rightarrow> Errored | Inr r \<Rightarrow> Completed),
                      progress := g m\<rparr>
               else m) (mediaQueue st)"
    using runStage_queue[OF a k p] by blast
  have keep: "\<And>m f. m \<in> set (mediaQueue st) \<Longrightarrow>
      map (\<lambda>v. if vid v = uuidv4 env then f v else v) (versions m) = versions m"
    using fresh by (simp add: map_idI)
  have len: "length (mediaQueue (runStage env stg pid cp st)) = length (mediaQueue st)"
    by (simp add: q)
  have each: "\<And>j. j < length (mediaQueue st) \<Longrightarrow>
      \<exists>new. versions (mediaQueue (runStage env stg pid cp st) ! j) = versions (mediaQueue st ! j) @ new
            \<and> length new \<le> 1"
  proof -
    fix j assume j: "j < length (mediaQueue st)"
    then have mem: "mediaQueue st ! j \<in> set (mediaQueue st)" by simp
    show "\<exists>new. versions (mediaQueue (runStage env stg pid cp st) ! j) = versions (mediaQueue st ! j) @ new
            \<and> length new \<le> 1"
      using j by (simp add: q keep[OF mem])
  qed
  show ?thesis
  proof (intro conjI allI impI)
    show "length (mediaQueue (runStage env stg pid cp st)) = length (mediaQueue st)" by (rule len)
  next
    fix j assume j: "j < length (mediaQueue st)"
    from each[OF j] obtain new where
      n: "versions (mediaQueue (runStage env stg pid cp st) ! j) = versions (mediaQueue st ! j) @ new"
      and l: "length new \<le> 1" by blast
    show "take (length (versions (mediaQueue st ! j)))
          (versions (mediaQueue (runStage env stg pid cp st) ! j)) = versions (mediaQueue st ! j)"
      by (simp add: n)
    show "length (versions (mediaQueue (runStage env stg pid cp st) ! j))
          \<le> Suc (length (versions (mediaQueue st ! j)))"
      using l by (simp add: n)
    fix r assume "findRaw (versions (mediaQueue st ! j)) = Some r"
    then show "findRaw (versions (mediaQueue (runStage env stg pid cp st) ! j)) = Some r"
      by (simp add: n findRaw_def find_append_Some)
  qed
qed

theorem stage_run_keeps_versions_witness:
  "findRaw (versions (mediaQueue (runStage exEnv FORMAL ''v1'' None exState) ! 0)) = Some exRaw \<and>
   findRaw (versions (mediaQueue (runStage exEnvDown FORMAL ''v1'' None exState) ! 0)) = Some exRaw"
  using stage_run_keeps_versions [of exState exEnv FORMAL "''v1''" None]
    stage_run_keeps_versions [of exState exEnvDown FORMAL "''v1''" None]
  by (simp add: exState_def exItem_def exRaw_def exEnv_def exEnvDown_def rawVersion_def findRaw_def)

text \<open>
  Claim C10, as the code has it. When there is an active item, an API key is set and
  \<open>parentVersionId\<close> resolves in the active item, \<open>runStage\<close> appends a placeholder
  version with that parent before the remote call and points \<open>currentVersionId\<close> at it;
  after the call the pointer is still on that version, which is the last of the list and
  holds the result on success and the failure marker on failure.
\<close>

theorem stage_run_current_pointer:
  assumes a: "activeItem st = Some a" and k: "apiKey st \<noteq> []"
    and p: "findVersion pid (versions a) = Some p"
  shows "\<exists>nv st2 m2 m3.
     beginStage env stg pid cp st = Some (a, p, nv, st2) \<and>
     vid nv = uuidv4 env \<and> parentId nv = Some pid \<and> content nv = CONTENT_PLEASE_WAIT \<and>
     findItem (mid a) (mediaQueue st2) = Some m2 \<and>
     versions m2 = versions a @ [nv] \<and> currentVersionId m2 = Some (vid nv) \<and>
     status m2 = Processing \<and>
     findItem (mid a) (mediaQueue (runStage env stg pid cp st)) = Some m3 \<and>
     currentVersionId m3 = Some (vid nv) \<and>
     length (versions m3) = Suc (length (versions a)) \<and>
     vid (last (versions m3)) = vid nv \<and> parentId (last (versions m3)) = Some pid \<and>
     (case stageOutcome env st p stg cp of
        Inl e \<Rightarrow> status m3 = Errored \<and> content (last (versions m3)) = CONTENT_STAGE_FAILED
      | Inr r \<Rightarrow> status m3 = Completed \<and> content (last (versions m3)) = r)"
proof -
  let ?nv = "stageVersion env stg pid cp"
  let ?st2 = "updateItem (mid a) (\<lambda>m. m\<lparr>status := Processing, progress := 0\<rparr>) True
             (addVersionToItem (mid a) ?nv True st)"
  have fa: "findItem (mid a) (mediaQueue st) = Some a" by (rule activeItem_Some[OF a])
  have b: "beginStage env stg pid cp st = Some (a, p, ?nv, ?st2)" by (rule beginStage_Some[OF a k p])
  have q2: "mediaQueue ?st2 =
      map (\<lambda>m. if mid m = mid a
                then m\<lparr>versions := versions m @ [?nv], currentVersionId := Some (vid ?nv),
                       status := Processing, progress := 0\<rparr>
                else m) (mediaQueue st)"
    by (simp add: updateItem_def addVersionToItem_def comp_def cong: if_cong)
  have m2: "findItem (mid a) (mediaQueue ?st2) =
      Some (a\<lparr>versions := versions a @ [?nv], currentVersionId := Some (vid ?nv),
              status := Processing, progress := 0\<rparr>)"
    unfolding q2 by (subst findItem_map_upd) (simp_all add: fa)
  obtain g where q: "mediaQueue (runStage env stg pid cp st) =
     map (\<lambda>m. if mid m = mid a
               then m\<lparr>versions :=
                        map (\<lambda>v. if vid v = uuidv4 env
                                  then v\<lparr>content := (case stageOutcome env st p stg cp of
                                                        Inl e \<Rightarrow> CONTENT_STAGE_FAILED | Inr r \<Rightarrow> r),
                                         name := (case stageOutcome env st p stg cp of
                                                    Inl e \<Rightarrow> stageName stg @ SUFFIX_FAILED
                                                  | Inr r \<Rightarrow> stageName stg)\<rparr>
                                  else v)
                          (versions m @ [stageVersion env stg pid cp]),
                      currentVersionId := Some (uuidv4 env),
                      status := (case stageOutcome env st p stg cp of
                                   Inl e \<Rightarrow> Errored | Inr r \<Rightarrow> Completed),
                      progress := g m\<rparr>
               else m) (mediaQueue st)"
    using runStage_queue[OF a k p] by blast
  have "\<exists>m3. findItem (mid a) (mediaQueue (runStage env stg pid cp st)) = Some m3 \<and>
     currentVersionId m3 = Some (vid ?nv) \<and>
     length (versions m3) = Suc (length (versions a)) \<and>
     vid (last (versions m3)) = vid ?nv \<and> parentId (last (versions m3)) = Some pid \<and>
     (case stageOutcome env st p stg cp of
        Inl e \<Rightarrow> status m3 = Errored \<and> content (last (versions m3)) = CONTENT_STAGE_FAILED
      | Inr r \<Rightarrow> status m3 = Completed \<and> content (last (versions m3)) = r)"
    unfolding q
    by (subst findItem_map_upd) (simp_all add: fa stageVersion_def split: sum.splits)
  then show ?thesis using b m2 by (simp add: stageVersion_def)
qed

theorem stage_run_current_pointer_witness:
  "map_option currentVersionId (findItem ''a'' (mediaQueue (runStage exEnv FORMAL ''v1'' None exState)))
     = Some (Some ''v2'') \<and>
   map_option currentVersionId (findItem ''a'' (mediaQueue (runStage exEnvDown FORMAL ''v1'' None exState)))
     = Some (Some ''v2'')"
proof -
  have a: "activeItem exState = Some exItem"
    by (simp add: activeItem_def exState_def exItem_def findItem_def)
  have k: "apiKey exState \<noteq> []" by (simp add: exState_def)
  have p: "findVersion ''v1'' (versions exItem) = Some exRaw"
    by (simp add: findVersion_def exItem_def exRaw_def rawVersion_def)
  have m: "mid exItem = ''a''" by (simp add: exItem_def)
  have u: "uuidv4 exEnv = ''v2''" "uuidv4 exEnvDown = ''v2''" by (simp_all add: exEnv_def exEnvDown_def)
  show ?thesis
    using stage_run_current_pointer [OF a k p, of exEnv FORMAL None]
      stage_run_current_pointer [OF a k p, of exEnvDown FORMAL None]
    by (auto simp: m u)
qed

text \<open>
  Claim C10 as stated fails without an API key: the parent resolves, and \<open>runStage\<close>
  returns at its guard with the state unchanged.
\<close>

theorem stage_run_without_key_counterexample:
  "activeItem exStateNoKey = Some exItem \<and>
   findVersion ''v1'' (versions exItem) = Some exRaw \<and>
   runStage exEnv FORMAL ''v1'' None exStateNoKey = exStateNoKey"
  by (simp add: activeItem_def exStateNoKey_def exState_def exItem_def findItem_def findVersion_def
      exRaw_def rawVersion_def runStage_def beginStage_def)

section \<open>The chunk loop, step by step\<close>

lemma appendChunks_same [simp]: "appendChunks t seed i i = seed"
  by (simp add: appendChunks_def)

lemma appendChunks_Suc: "i \<le> k \<Longrightarrow> appendChunks t seed i (Suc k) = appendChunks t seed i k @ t k @ '' ''"
  by (simp add: appendChunks_def)

lemma appendChunks_join:
  "i \<le> k \<Longrightarrow> k \<le> n \<Longrightarrow> appendChunks t (appendChunks t seed i k) k n = appendChunks t seed i n"
proof -
  assume ik: "i \<le> k" and kn: "k \<le> n"
  then obtain d where n: "n = k + d" using le_Suc_ex by blast
  have "[i..<k + d] = [i..<k] @ [k..<k + d]" using ik by (rule upt_add_eq_append)
  then show ?thesis by (simp add: appendChunks_def n)
qed

lemma mid_checkpoint [simp]: "mid (checkpoint b tot k full x) = mid x"
  by (simp add: checkpoint_def)

lemma checkpoint_fields [simp]:
  "status (checkpoint b tot k full x) = status x"
  "error (checkpoint b tot k full x) = error x"
  "processedChunks (checkpoint b tot k full x) = k"
  "currentVersionId (checkpoint b tot k full x) = currentVersionId x"
  by (simp_all add: checkpoint_def)

lemma noError_checkpoint [simp]: "noError (checkpoint b tot k full x) = noError x"
  by (simp add: noError_def)

lemma commitState_fields [simp]:
  "apiKey (commitState buf a b tot i k full st) = apiKey st"
  "selectedModel (commitState buf a b tot i k full st) = selectedModel st"
  "saved (commitState buf a b tot i k full st) = saved st"
  "sent (commitState buf a b tot i k full st) = sent st @ [i..<k]"
  "slices (commitState buf a b tot i k full st) = slices st @ map (chunkWindow buf) [i..<k]"
  "syncStatus (commitState buf a b tot i k full st) = syncStatus st"
  by (simp_all add: commitState_def)

lemma findItem_commitState:
  "findItem a (mediaQueue (commitState buf a b tot i k full st)) =
     (if i < k then map_option (checkpoint b tot k full) (findItem a (mediaQueue st))
      else findItem a (mediaQueue st))"
  by (simp add: commitState_def findItem_map_upd)

lemma pausedWithoutError_map:
  assumes "\<And>x. mid (g x) = mid x" "\<And>x. status (g x) = status x" "\<And>x. error (g x) = error x"
  shows "pausedWithoutError (findItem a (map (\<lambda>x. if mid x = a then g x else x) q)) =
         pausedWithoutError (findItem a q)"
  by (simp add: findItem_map_upd assms pausedWithoutError_def noError_def split: option.splits)

lemma pausedWithoutError_commitState [simp]:
  "pausedWithoutError (findItem a (mediaQueue (commitState buf a b tot i k full st))) =
   pausedWithoutError (findItem a (mediaQueue st))"
  by (simp add: commitState_def pausedWithoutError_map)

lemma slice_chunkWindow:
  "sliceAudioBuffer l buf (real i * CHUNK_DURATION) CHUNK_DURATION = Inr blob \<Longrightarrow>
   chunkWindow buf i = blob"
  by (auto simp: chunkWindow_def sliceAudioBuffer_def Let_def split: if_splits)

lemma payload_chunkWindow:
  "chunkPayload env buf i = Inr p \<Longrightarrow>
   sliceAudioBuffer (lamejs env) buf (real i * CHUNK_DURATION) CHUNK_DURATION =
     Inr (chunkWindow buf i)"
  by (auto simp: chunkPayload_def slice_chunkWindow split: sum.splits)

lemma transcribe_payload:
  "transcribeChunk env key model buf i = Inr txt \<Longrightarrow> \<exists>p. chunkPayload env buf i = Inr p"
  by (auto simp: transcribeChunk_def split: sum.splits)

lemma chunkStep_commit:
  assumes ext: "external env i = (\<lambda>q. q)"
    and run: "\<not> pausedWithoutError (findItem (mid item) (mediaQueue st))"
    and ok: "transcribeChunk env (apiKey st) (selectedModel st) buf i = Inr txt"
  shows "chunkStep env item buf b tot i full st =
     Continue (full @ txt @ '' '')
       (st\<lparr>mediaQueue := map (\<lambda>x. if mid x = mid item
                                    then checkpoint b tot (Suc i) (full @ txt @ '' '') x else x)
                               (mediaQueue st),
           sent := sent st @ [i],
           slices := slices st @ [chunkWindow buf i]\<rparr>)"
proof -
  obtain p where p: "chunkPayload env buf i = Inr p" using transcribe_payload[OF ok] by blast
  note sl = payload_chunkWindow[OF p]
  show ?thesis
    using ok run p
    by (auto simp: chunkStep_def ext Let_def transcribeChunk_def chunkPayload_def sl updateItem_def
        patchVersions_def checkpoint_def comp_def split: sum.splits cong: if_cong)
qed

lemma chunkStep_throw:
  assumes ext: "external env i = (\<lambda>q. q)"
    and run: "\<not> pausedWithoutError (findItem (mid item) (mediaQueue st))"
    and pay: "chunkPayload env buf i = Inr p"
    and bad: "transcribeChunk env (apiKey st) (selectedModel st) buf i = Inl e"
  shows "chunkStep env item buf b tot i full st =
     Throw e
       (st\<lparr>mediaQueue := map (\<lambda>x. if mid x = mid item
                                    then x\<lparr>progress := js_round (real i / real tot * 100)\<rparr> else x)
                               (mediaQueue st),
           slices := slices st @ [chunkWindow buf i],
           sent := sent st @ [i]\<rparr>)"
  using bad pay run
  by (auto simp: chunkStep_def ext Let_def transcribeChunk_def chunkPayload_def updateItem_def
      payload_chunkWindow[OF pay] split: sum.splits)

lemma chunkStep_break:
  assumes "pausedWithoutError (findItem (mid item) (external env i (mediaQueue st)))"
  shows "chunkStep env item buf b tot i full st =
     Break (st\<lparr>mediaQueue := external env i (mediaQueue st)\<rparr>)"
  using assms by (simp add: chunkStep_def Let_def)

lemma chunkLoop_done:
  "\<not> i < tot \<Longrightarrow> chunkLoop env item buf b tot i full st = (Inr (True, full), st)"
  by (subst chunkLoop.simps) simp

lemma chunkLoop_Continue:
  "i < tot \<Longrightarrow> chunkStep env item buf b tot i full st = Continue full' st' \<Longrightarrow>
   chunkLoop env item buf b tot i full st = chunkLoop env item buf b tot (Suc i) full' st'"
  by (subst chunkLoop.simps) simp

lemma chunkLoop_Throw:
  "i < tot \<Longrightarrow> chunkStep env item buf b tot i full st = Throw e st' \<Longrightarrow>
   chunkLoop env item buf b tot i full st = (Inl e, st')"
  by (subst chunkLoop.simps) simp

lemma chunkLoop_Break:
  "i < tot \<Longrightarrow> chunkStep env item buf b tot i full st = Break st' \<Longrightarrow>
   chunkLoop env item buf b tot i full st = (Inr (False, full), st')"
  by (subst chunkLoop.simps) simp

lemma checkpoint_checkpoint:
  "checkpoint b tot k' full' (checkpoint b tot k full x) = checkpoint b tot k' full' x"
  by (simp add: checkpoint_def comp_def cong: if_cong)

lemma commitState_Suc:
  assumes "i \<le> k"
  shows "(commitState buf a b tot i k full st)
           \<lparr>mediaQueue := map (\<lambda>x. if mid x = a then checkpoint b tot (Suc k) full' x else x)
                              (mediaQueue (commitState buf a b tot i k full st)),
            sent := sent (commitState buf a b tot i k full st) @ [k],
            slices := slices (commitState buf a b tot i k full st) @ [chunkWindow buf k]\<rparr> =
         commitState buf a b tot i (Suc k) full' st"
  using assms
  by (auto simp: commitState_def comp_def checkpoint_checkpoint cong: if_cong)

lemma chunkLoop_prefix:
  assumes ik: "i \<le> k" and kt: "k \<le> tot"
    and ext: "\<And>j. i \<le> j \<Longrightarrow> j < k \<Longrightarrow> external env j = (\<lambda>q. q)"
    and ok: "\<And>j. i \<le> j \<Longrightarrow> j < k \<Longrightarrow>
               transcribeChunk env (apiKey st) (selectedModel st) buf j = Inr (t j)"
    and run: "\<not> pausedWithoutError (findItem (mid item) (mediaQueue st))"
  shows "chunkLoop env item buf b tot i full st =
     chunkLoop env item buf b tot k (appendChunks t full i k)
       (commitState buf (mid item) b tot i k (appendChunks t full i k) st)"
  using ik ext ok kt
proof (induction k rule: dec_induct)
  case base
  show ?case by (simp add: commitState_def)
next
  case (step n)
  let ?full = "appendChunks t full i n"
  let ?st = "commitState buf (mid item) b tot i n ?full st"
  have IH: "chunkLoop env item buf b tot i full st = chunkLoop env item buf b tot n ?full ?st"
    using step by simp
  have run': "\<not> pausedWithoutError (findItem (mid item) (mediaQueue ?st))"
    using run by simp
  have ok': "transcribeChunk env (apiKey ?st) (selectedModel ?st) buf n = Inr (t n)"
    using step.prems(2)[of n] step.hyps by simp
  have ext': "external env n = (\<lambda>q. q)" using step.prems(1)[of n] step.hyps by simp
  have nt: "n < tot" using step.prems(3) by simp
  note c = chunkStep_commit[OF ext' run' ok', of b tot ?full]
  have "chunkLoop env item buf b tot n ?full ?st =
        chunkLoop env item buf b tot (Suc n) (?full @ t n @ '' '')
          (commitState buf (mid item) b tot i (Suc n) (?full @ t n @ '' '') st)"
    using chunkLoop_Continue[OF nt c] unfolding commitState_Suc[OF step.hyps(1)] .
  then show ?case using IH by (simp add: appendChunks_Suc[OF step.hyps(1)])
qed

lemma decodedState_fields [simp]:
  "apiKey (decodedState item d s st) = apiKey st"
  "selectedModel (decodedState item d s st) = selectedModel st"
  "saved (decodedState item d s st) = saved st"
  "sent (decodedState item d s st) = sent st"
  "syncStatus (decodedState item d s st) = syncStatus st"
  by (simp_all add: decodedState_def updateItem_def)

lemma pausedWithoutError_decodedState [simp]:
  "pausedWithoutError (findItem (mid item) (mediaQueue (decodedState item d s st))) =
   pausedWithoutError (findItem (mid item) (mediaQueue st))"
  by (simp add: decodedState_def updateItem_def pausedWithoutError_map)

lemma tryBlock_loop:
  assumes dec: "decodeAudioFile env f = Inr d"
    and tot: "0 < s \<longrightarrow> totalChunks item = chunkCount d"
  shows "tryBlock env item f s b full iv st =
     (case chunkLoop env item d b (chunkCount d) s full (decodedState item d s st) of
        (Inl e, st2) \<Rightarrow> (Some e, st2)
      | (Inr (c, full'), st2) \<Rightarrow>
          (if c then (None, completeTranscription env item b full' iv
                              (if s = 0 \<or> duration item = 0 then d else duration item)
                              (chunkCount d) st2)
           else (None, st2)))"
  using tot by (auto simp: tryBlock_def dec decodedState_def Let_def split: prod.splits sum.splits)

lemma run_fail:
  assumes dec: "decodeAudioFile env f = Inr d"
    and tot: "0 < s \<longrightarrow> totalChunks item = chunkCount d"
    and run: "\<not> pausedWithoutError (findItem (mid item) (mediaQueue st))"
    and ext: "\<And>j. s \<le> j \<Longrightarrow> j \<le> i \<Longrightarrow> external env j = (\<lambda>q. q)"
    and ok: "\<And>j. s \<le> j \<Longrightarrow> j < i \<Longrightarrow>
               transcribeChunk env (apiKey st) (selectedModel st) d j = Inr (t j)"
    and pay: "chunkPayload env d i = Inr p"
    and bad: "transcribeChunk env (apiKey st) (selectedModel st) d i = Inl e"
    and si: "s \<le> i" and it: "i < chunkCount d"
  shows "runTranscription env item f s b full iv st =
     failState d item b (chunkCount d) s i (appendChunks t full s i) e (decodedState item d s st)"
proof -
  let ?st1 = "decodedState item d s st"
  let ?T = "chunkCount d"
  let ?full = "appendChunks t full s i"
  let ?st = "commitState d (mid item) b ?T s i ?full ?st1"
  have run1: "\<not> pausedWithoutError (findItem (mid item) (mediaQueue ?st1))" using run by simp
  have p: "chunkLoop env item d b ?T s full ?st1 = chunkLoop env item d b ?T i ?full ?st"
    by (rule chunkLoop_prefix[OF si _ _ _ run1]) (use it ext ok in simp_all)
  have th: "chunkStep env item d b ?T i ?full ?st =
      Throw e (?st\<lparr>mediaQueue := map (\<lambda>x. if mid x = mid item
                                    then x\<lparr>progress := js_round (real i / real ?T * 100)\<rparr> else x)
                               (mediaQueue ?st),
           slices := slices ?st @ [chunkWindow d i],
           sent := sent ?st @ [i]\<rparr>)"
    by (rule chunkStep_throw[OF _ _ pay]) (use ext[of i] si run bad in simp_all)
  show ?thesis
    unfolding runTranscription_def tryBlock_loop[OF dec tot] p chunkLoop_Throw[OF it th] failState_def
    by simp
qed

lemma run_pause:
  assumes dec: "decodeAudioFile env f = Inr d"
    and tot: "0 < s \<longrightarrow> totalChunks item = chunkCount d"
    and run: "\<not> pausedWithoutError (findItem (mid item) (mediaQueue st))"
    and ext: "\<And>j. s \<le> j \<Longrightarrow> j < i \<Longrightarrow> external env j = (\<lambda>q. q)"
    and ok: "\<And>j. s \<le> j \<Longrightarrow> j < i \<Longrightarrow>
               transcribeChunk env (apiKey st) (selectedModel st) d j = Inr (t j)"
    and si: "s \<le> i" and it: "i < chunkCount d"
    and pz: "pausedWithoutError (findItem (mid item)
               (external env i (mediaQueue (commitState d (mid item) b (chunkCount d) s i
                  (appendChunks t full s i) (decodedState item d s st)))))"
  shows "runTranscription env item f s b full iv st =
     (commitState d (mid item) b (chunkCount d) s i (appendChunks t full s i) (decodedState item d s st))
       \<lparr>mediaQueue := external env i (mediaQueue (commitState d (mid item) b (chunkCount d) s i
                  (appendChunks t full s i) (decodedState item d s st)))\<rparr>"
proof -
  let ?st1 = "decodedState item d s st"
  let ?T = "chunkCount d"
  let ?full = "appendChunks t full s i"
  let ?st = "commitState d (mid item) b ?T s i ?full ?st1"
  have run1: "\<not> pausedWithoutError (findItem (mid item) (mediaQueue ?st1))" using run by simp
  have p: "chunkLoop env item d b ?T s full ?st1 = chunkLoop env item d b ?T i ?full ?st"
    by (rule chunkLoop_prefix[OF si _ _ _ run1]) (use it ext ok in simp_all)
  note br = chunkStep_break[OF pz, of d b ?T ?full]
  show ?thesis
    unfolding runTranscription_def tryBlock_loop[OF dec tot] p chunkLoop_Break[OF it br]
    by simp
qed

lemma run_success:
  assumes dec: "decodeAudioFile env f = Inr d"
    and tot: "0 < s \<longrightarrow> totalChunks item = chunkCount d"
    and run: "\<not> pausedWithoutError (findItem (mid item) (mediaQueue st))"
    and ext: "\<And>j. s \<le> j \<Longrightarrow> j < chunkCount d \<Longrightarrow> external env j = (\<lambda>q. q)"
    and ok: "\<And>j. s \<le> j \<Longrightarrow> j < chunkCount d \<Longrightarrow>
               transcribeChunk env (apiKey st) (selectedModel st) d j = Inr (t j)"
  shows "runTranscription env item f s b full iv st =
     completeTranscription env item b (appendChunks t full s (chunkCount d)) iv
       (if s = 0 \<or> duration item = 0 then d else duration item) (chunkCount d)
       (commitState d (mid item) b (chunkCount d) s (chunkCount d)
          (appendChunks t full s (chunkCount d)) (decodedState item d s st))"
proof (cases "s \<le> chunkCount d")
  case True
  let ?st1 = "decodedState item d s st"
  let ?T = "chunkCount d"
  have run1: "\<not> pausedWithoutError (findItem (mid item) (mediaQueue ?st1))" using run by simp
  have p: "chunkLoop env item d b ?T s full ?st1 =
      chunkLoop env item d b ?T ?T (appendChunks t full s ?T)
        (commitState d (mid item) b ?T s ?T (appendChunks t full s ?T) ?st1)"
    by (rule chunkLoop_prefix[OF True _ _ _ run1]) (use ext ok in simp_all)
  show ?thesis
    unfolding runTranscription_def tryBlock_loop[OF dec tot] p
    by (simp add: chunkLoop_done)
next
  case False
  then have "appendChunks t full s (chunkCount d) = full" by (simp add: appendChunks_def)
  moreover have "commitState d (mid item) b (chunkCount d) s (chunkCount d) full (decodedState item d s st)
      = decodedState item d s st" using False by (simp add: commitState_def)
  ultimately show ?thesis
    unfolding runTranscription_def tryBlock_loop[OF dec tot]
    using False by (simp add: chunkLoop_done)
qed

lemma start_Resolved:
  assumes "apiKey st \<noteq> []" "itemFile item = Some f"
    and "resolveVersion env item r (processedChunks item)
           (updateItem (mid item) (\<lambda>m. m\<lparr>status := Processing, error := None\<rparr>) True st)
         = Resolved b seed iv st2"
  shows "startTranscription env item r st =
         runTranscription env item f (processedChunks item) b seed iv st2"
  using assms by (subst startTranscription.simps) (simp add: Let_def)

lemma start_Restart:
  assumes "apiKey st \<noteq> []" "itemFile item = Some f"
    and "resolveVersion env item r (processedChunks item)
           (updateItem (mid item) (\<lambda>m. m\<lparr>status := Processing, error := None\<rparr>) True st)
         = Restart st2"
  shows "startTranscription env item r st =
         startTranscription env (item\<lparr>processedChunks := 0\<rparr>) False st2"
  using assms by (subst startTranscription.simps) (simp add: Let_def)

section \<open>Starting a transcription\<close>

lemma processingState_fields [simp]:
  "apiKey (processingState item st) = apiKey st"
  "selectedModel (processingState item st) = selectedModel st"
  "saved (processingState item st) = saved st"
  "sent (processingState item st) = sent st"
  by (simp_all add: processingState_def updateItem_def)

lemma findItem_processingState:
  "findItem (mid item) (mediaQueue (processingState item st)) =
   map_option (\<lambda>m. m\<lparr>status := Processing, error := None\<rparr>) (findItem (mid item) (mediaQueue st))"
  by (simp add: processingState_def updateItem_def findItem_map_upd)

lemma not_paused_processingState [simp]:
  "\<not> pausedWithoutError (findItem (mid item) (mediaQueue (processingState item st)))"
  by (simp add: findItem_processingState pausedWithoutError_def split: option.splits)

lemma addVersionToItem_queue:
  "mediaQueue (addVersionToItem a nv True st) =
   map (\<lambda>x. if mid x = a then x\<lparr>versions := versions x @ [nv], currentVersionId := Some (vid nv)\<rparr>
             else x) (mediaQueue st)"
  by (simp add: addVersionToItem_def cong: if_cong)

lemma addVersionToItem_fields [simp]:
  "apiKey (addVersionToItem a nv c st) = apiKey st"
  "selectedModel (addVersionToItem a nv c st) = selectedModel st"
  "saved (addVersionToItem a nv c st) = saved st"
  "sent (addVersionToItem a nv c st) = sent st"
  by (simp_all add: addVersionToItem_def)

lemma resolve_Resolved_cases:
  assumes "resolveVersion env item r s st1 = Resolved b seed iv st2"
  shows "(st2 = st1 \<and> iv = versions item) \<or>
         (\<exists>nm. st2 = addVersionToItem (mid item) (rawVersion (uuidv4 env) nm [] (now env)) True st1 \<and>
               iv = versions item @ [rawVersion (uuidv4 env) nm [] (now env)] \<and>
               b = uuidv4 env \<and> seed = [])"
  using assms by (auto simp: resolveVersion_def Let_def split: if_splits option.splits)

lemma resolve_Resolved_fields:
  assumes "resolveVersion env item r s st1 = Resolved b seed iv st2"
  shows "apiKey st2 = apiKey st1" "selectedModel st2 = selectedModel st1"
    "saved st2 = saved st1" "sent st2 = sent st1"
    "pausedWithoutError (findItem (mid item) (mediaQueue st2)) =
     pausedWithoutError (findItem (mid item) (mediaQueue st1))"
  using resolve_Resolved_cases[OF assms]
  by (auto simp: addVersionToItem_queue pausedWithoutError_map)

lemma resolve_Restart_iff:
  "(\<exists>st2. resolveVersion env item r s st1 = Restart st2) \<longleftrightarrow> restarts env item r"
  by (auto simp: resolveVersion_def restarts_def Let_def split: option.splits)

lemma resolve_Restart_state:
  "resolveVersion env item r s st1 = Restart st2 \<Longrightarrow>
   st2 = updateItem (mid item) (\<lambda>m. m\<lparr>processedChunks := 0, totalChunks := 0\<rparr>) False st1"
  by (auto simp: resolveVersion_def Let_def split: if_splits option.splits)

lemma start_unfold:
  assumes "apiKey st \<noteq> []" "itemFile item = Some f"
  shows "startTranscription env item r st =
     (case resolveVersion env item r (processedChunks item) (processingState item st) of
        Restart st2 \<Rightarrow> startTranscription env (item\<lparr>processedChunks := 0\<rparr>) False st2
      | Resolved b seed iv st2 \<Rightarrow>
          runTranscription env item f (processedChunks item) b seed iv st2)"
  using assms by (subst startTranscription.simps) (simp add: Let_def processingState_def)

lemma completeTranscription_fields [simp]:
  "sent (completeTranscription env item b full iv dur tot st) = sent st"
  "apiKey (completeTranscription env item b full iv dur tot st) = apiKey st"
  by (simp_all add: completeTranscription_def Let_def handleSaveToCloud_def patchVersions_def
      updateItem_def)

text \<open>The chunks a run sends when nothing fails and nobody interferes.\<close>

lemma sent_resolved_success:
  assumes key: "apiKey st \<noteq> []" and fil: "itemFile item = Some f"
    and res: "resolveVersion env item r (processedChunks item) (processingState item st)
                = Resolved b seed iv st2"
    and dec: "decodeAudioFile env f = Inr d"
    and tot: "0 < processedChunks item \<longrightarrow> totalChunks item = chunkCount d"
    and ext: "\<And>j. external env j = (\<lambda>q. q)"
    and ok: "\<And>j. j < chunkCount d \<Longrightarrow>
               transcribeChunk env (apiKey st) (selectedModel st) d j = Inr (t j)"
  shows "sent (startTranscription env item r st) = sent st @ [processedChunks item..<chunkCount d]"
proof -
  note f = resolve_Resolved_fields[OF res]
  have run: "\<not> pausedWithoutError (findItem (mid item) (mediaQueue st2))"
    by (simp add: f(5))
  have ok2: "\<And>j. processedChunks item \<le> j \<Longrightarrow> j < chunkCount d \<Longrightarrow>
      transcribeChunk env (apiKey st2) (selectedModel st2) d j = Inr (t j)"
    using ok by (simp add: f)
  show ?thesis
    unfolding start_unfold[OF key fil] res
    by (simp add: run_success[OF dec tot run ext ok2] f)
qed

lemma updateItem_fields [simp]:
  "apiKey (updateItem a g c st) = apiKey st"
  "selectedModel (updateItem a g c st) = selectedModel st"
  "saved (updateItem a g c st) = saved st"
  "sent (updateItem a g c st) = sent st"
  by (simp_all add: updateItem_def)

lemma resolve_not_restarts:
  assumes "\<not> restarts env item r"
  obtains b seed iv st2 where "resolveVersion env item r s st1 = Resolved b seed iv st2"
  using assms resolve_Restart_iff[of env item r s st1]
  by (cases "resolveVersion env item r s st1") auto

lemma sent_start_success:
  assumes key: "apiKey st \<noteq> []" and fil: "itemFile item = Some f"
    and dec: "decodeAudioFile env f = Inr d"
    and tot: "0 < processedChunks item \<longrightarrow> totalChunks item = chunkCount d"
    and ext: "\<And>j. external env j = (\<lambda>q. q)"
    and ok: "\<And>j. j < chunkCount d \<Longrightarrow>
               transcribeChunk env (apiKey st) (selectedModel st) d j = Inr (t j)"
  shows "sent (startTranscription env item r st) =
     sent st @ [(if restarts env item r then 0 else processedChunks item)..<chunkCount d]"
proof (cases "restarts env item r")
  case False
  then obtain b seed iv st2 where
    res: "resolveVersion env item r (processedChunks item) (processingState item st)
            = Resolved b seed iv st2"
    by (rule resolve_not_restarts)
  show ?thesis
    using sent_resolved_success[OF key fil res dec tot ext ok] False by simp
next
  case True
  then obtain st2 where
    res: "resolveVersion env item r (processedChunks item) (processingState item st) = Restart st2"
    using resolve_Restart_iff by blast
  let ?item0 = "item\<lparr>processedChunks := 0\<rparr>"
  have st2: "st2 = updateItem (mid item) (\<lambda>m. m\<lparr>processedChunks := 0, totalChunks := 0\<rparr>) False
      (processingState item st)"
    by (rule resolve_Restart_state[OF res])
  have key2: "apiKey st2 \<noteq> []" and fil2: "itemFile ?item0 = Some f"
    using key fil by (simp_all add: st2)
  have nr: "\<not> restarts env ?item0 False" by (simp add: restarts_def)
  obtain b seed iv st3 where
    res0: "resolveVersion env ?item0 False (processedChunks ?item0) (processingState ?item0 st2)
            = Resolved b seed iv st3"
    using nr by (rule resolve_not_restarts)
  have tot0: "0 < processedChunks ?item0 \<longrightarrow> totalChunks ?item0 = chunkCount d" by simp
  have ok0: "\<And>j. j < chunkCount d \<Longrightarrow>
               transcribeChunk env (apiKey st2) (selectedModel st2) d j = Inr (t j)"
    using ok by (simp add: st2)
  have "startTranscription env item r st = startTranscription env ?item0 False st2"
    by (simp add: start_unfold[OF key fil] res)
  then show ?thesis
    using sent_resolved_success[OF key2 fil2 res0 dec tot0 ext ok0] True by (simp add: st2)
qed


lemma chunkCount_500: "chunkCount 500 = 3"
  by (simp add: chunkCount_def CHUNK_DURATION_def)

lemma exEnv_transcribes: "transcribeChunk exEnv key model d j = Inr ''matn''"
  by (simp add: transcribeChunk_def chunkPayload_def sliceAudioBuffer_def Let_def
      transcribeSegment_def uniqueModels_eq initRetry_def textOrEmpty_def exEnv_def)




section \<open>The windows a run walks\<close>

lemma slices_fields [simp]:
  "slices (decodedState item d s st) = slices st"
  "slices (processingState item st) = slices st"
  "slices (addVersionToItem a nv c st) = slices st"
  "slices (updateItem a g c st) = slices st"
  "slices (completeTranscription env item b full iv dur tot st) = slices st"
  by (simp_all add: decodedState_def processingState_def addVersionToItem_def updateItem_def
      completeTranscription_def Let_def handleSaveToCloud_def patchVersions_def)

lemma resolve_Resolved_slices:
  assumes "resolveVersion env item r s st1 = Resolved b seed iv st2"
  shows "slices st2 = slices st1"
  using resolve_Resolved_cases[OF assms] by auto

lemma tryBlock_loopTotal:
  assumes dec: "decodeAudioFile env f = Inr d"
  shows "tryBlock env item f s b full iv st =
     (case chunkLoop env item d b (loopTotal item d s) s full (decodedState item d s st) of
        (Inl e, st2) \<Rightarrow> (Some e, st2)
      | (Inr (c, full'), st2) \<Rightarrow>
          (if c then (None, completeTranscription env item b full' iv
                              (if s = 0 \<or> duration item = 0 then d else duration item)
                              (loopTotal item d s) st2)
           else (None, st2)))"
proof (cases "s = 0 \<or> duration item = 0")
  case True
  then have T: "loopTotal item d s = chunkCount d" by (auto simp: loopTotal_def)
  show ?thesis
    unfolding T using True
    by (simp add: tryBlock_def dec decodedState_def Let_def split: prod.splits sum.splits)
next
  case False
  then have T: "loopTotal item d s = (if totalChunks item = 0 then chunkCount d else totalChunks item)"
    by (auto simp: loopTotal_def)
  show ?thesis
    unfolding T using False
    by (simp add: tryBlock_def dec decodedState_def Let_def split: prod.splits sum.splits)
qed

lemma run_slices:
  assumes dec: "decodeAudioFile env f = Inr d"
    and run: "\<not> pausedWithoutError (findItem (mid item) (mediaQueue st))"
    and ext: "\<And>j. external env j = (\<lambda>q. q)"
    and ok: "\<And>j. j < loopTotal item d s \<Longrightarrow>
               transcribeChunk env (apiKey st) (selectedModel st) d j = Inr (t j)"
  shows "slices (runTranscription env item f s b full iv st) =
     slices st @ map (chunkWindow d) [s..<loopTotal item d s]"
proof (cases "s \<le> loopTotal item d s")
  case True
  let ?st1 = "decodedState item d s st"
  let ?T = "loopTotal item d s"
  have run1: "\<not> pausedWithoutError (findItem (mid item) (mediaQueue ?st1))" using run by simp
  have p: "chunkLoop env item d b ?T s full ?st1 =
      chunkLoop env item d b ?T ?T (appendChunks t full s ?T)
        (commitState d (mid item) b ?T s ?T (appendChunks t full s ?T) ?st1)"
    by (rule chunkLoop_prefix[OF True _ _ _ run1]) (use ext ok in simp_all)
  show ?thesis
    unfolding runTranscription_def tryBlock_loopTotal[OF dec] p
    by (simp add: chunkLoop_done)
next
  case False
  then show ?thesis
    unfolding runTranscription_def tryBlock_loopTotal[OF dec]
    by (simp add: chunkLoop_done)
qed

lemma loopTotal_reset [simp]:
  "loopTotal (item\<lparr>processedChunks := 0\<rparr>) d 0 = chunkCount d" "loopTotal item d 0 = chunkCount d"
  by (simp_all add: loopTotal_def)

lemma slices_resolved:
  assumes key: "apiKey st \<noteq> []" and fil: "itemFile item = Some f"
    and res: "resolveVersion env item r (processedChunks item) (processingState item st)
                = Resolved b seed iv st2"
    and dec: "decodeAudioFile env f = Inr d"
    and ext: "\<And>j. external env j = (\<lambda>q. q)"
    and ok: "\<And>j. j < loopTotal item d (processedChunks item) \<Longrightarrow>
               transcribeChunk env (apiKey st) (selectedModel st) d j = Inr (t j)"
  shows "slices (startTranscription env item r st) =
     slices st @ map (chunkWindow d) [processedChunks item..<loopTotal item d (processedChunks item)]"
proof -
  note f = resolve_Resolved_fields[OF res]
  have run: "\<not> pausedWithoutError (findItem (mid item) (mediaQueue st2))"
    by (simp add: f(5))
  have ok2: "\<And>j. j < loopTotal item d (processedChunks item) \<Longrightarrow>
      transcribeChunk env (apiKey st2) (selectedModel st2) d j = Inr (t j)"
    using ok by (simp add: f)
  show ?thesis
    unfolding start_unfold[OF key fil] res
    by (simp add: run_slices[OF dec run ext ok2] resolve_Resolved_slices[OF res])
qed

lemma slices_start:
  assumes key: "apiKey st \<noteq> []" and fil: "itemFile item = Some f"
    and dec: "decodeAudioFile env f = Inr d"
    and ext: "\<And>j. external env j = (\<lambda>q. q)"
    and ok: "\<And>j. j < loopTotal item d (firstChunk env item r) \<Longrightarrow>
               transcribeChunk env (apiKey st) (selectedModel st) d j = Inr (t j)"
  shows "slices (startTranscription env item r st) =
     slices st @ map (chunkWindow d) [firstChunk env item r..<loopTotal item d (firstChunk env item r)]"
proof (cases "restarts env item r")
  case False
  then obtain b seed iv st2 where
    res: "resolveVersion env item r (processedChunks item) (processingState item st)
            = Resolved b seed iv st2"
    by (rule resolve_not_restarts)
  show ?thesis
    using slices_resolved[OF key fil res dec ext, of t] ok False by (simp add: firstChunk_def)
next
  case True
  then obtain st2 where
    res: "resolveVersion env item r (processedChunks item) (processingState item st) = Restart st2"
    using resolve_Restart_iff by blast
  let ?item0 = "item\<lparr>processedChunks := 0\<rparr>"
  have st2: "st2 = updateItem (mid item) (\<lambda>m. m\<lparr>processedChunks := 0, totalChunks := 0\<rparr>) False
      (processingState item st)"
    by (rule resolve_Restart_state[OF res])
  have key2: "apiKey st2 \<noteq> []" and fil2: "itemFile ?item0 = Some f"
    using key fil by (simp_all add: st2)
  have nr: "\<not> restarts env ?item0 False" by (simp add: restarts_def)
  obtain b seed iv st3 where
    res0: "resolveVersion env ?item0 False (processedChunks ?item0) (processingState ?item0 st2)
            = Resolved b seed iv st3"
    using nr by (rule resolve_not_restarts)
  have ok0: "\<And>j. j < loopTotal ?item0 d (processedChunks ?item0) \<Longrightarrow>
               transcribeChunk env (apiKey st2) (selectedModel st2) d j = Inr (t j)"
    using ok True by (simp add: st2 firstChunk_def)
  have e: "startTranscription env item r st = startTranscription env ?item0 False st2"
    by (simp add: start_unfold[OF key fil] res)
  have s2: "slices st2 = slices st" by (simp add: st2)
  have fc: "firstChunk env item r = 0" using True by (simp add: firstChunk_def)
  have "slices (startTranscription env ?item0 False st2) =
      slices st2 @ map (chunkWindow d) [0..<chunkCount d]"
    using slices_resolved[OF key2 fil2 res0 dec ext ok0] by simp
  then show ?thesis unfolding e s2 fc by simp
qed

lemma loopTotal_computed:
  "s = 0 \<or> duration item = 0 \<or> totalChunks item = 0 \<or> totalChunks item = chunkCount d \<Longrightarrow>
   loopTotal item d s = chunkCount d"
  by (auto simp: loopTotal_def)

lemma drop_windows: "drop s (windows d) = map (chunkWindow d) [s..<chunkCount d]"
  by (simp add: windows_def drop_map)


text \<open>
  Claim C3. A run over audio of duration \<open>d > 0\<close> in which no call fails and nobody
  interferes: the blobs \<open>sliceAudioBuffer\<close> returns to the loop are those of the requests
  \<open>i * 240\<close> for \<open>i\<close> from the first chunk of the run below the bound of the loop. Whenever
  the \<open>try\<close> block computes that bound (the run starts at chunk 0, or the item has no
  duration or no total stored), and also when the stored total is \<open>ceil(d / 240)\<close>, these
  are the windows of \<open>d\<close> from the first chunk on; a run from chunk 0 walks all of them.
  The windows of \<open>d\<close> are exactly \<open>ceil(d / 240)\<close>; window \<open>i\<close> starts at \<open>i * 240\<close>; every
  window but the last is 240 seconds long and the last is \<open>min(240, d - i * 240)\<close> long;
  the lengths add up to \<open>d\<close>.
\<close>

theorem run_walks_windows:
  assumes key: "apiKey st \<noteq> []" and fil: "itemFile item = Some f"
    and dec: "decodeAudioFile env f = Inr d" and pos: "0 < d"
    and ext: "\<forall>j. external env j = (\<lambda>q. q)"
    and ok: "\<forall>j < loopTotal item d (firstChunk env item r).
               transcribeChunk env (apiKey st) (selectedModel st) d j = Inr (t j)"
  shows "slices (startTranscription env item r st) =
           slices st @ map (chunkWindow d)
                         [firstChunk env item r..<loopTotal item d (firstChunk env item r)] \<and>
         (firstChunk env item r = 0 \<or> duration item = 0 \<or> totalChunks item = 0 \<or>
          totalChunks item = nat \<lceil>d / 240\<rceil> \<longrightarrow>
            slices (startTranscription env item r st) =
              slices st @ drop (firstChunk env item r) (windows d)) \<and>
         length (windows d) = nat \<lceil>d / 240\<rceil> \<and>
         (\<forall>i < length (windows d).
            windowStart (windows d ! i) = Some (real i * 240) \<and>
            windowLength (windows d ! i) =
              (if Suc i < length (windows d) then 240 else min 240 (d - real i * 240))) \<and>
         sum_list (map windowLength (windows d)) = d"
proof -
  let ?s = "firstChunk env item r"
  have sl: "slices (startTranscription env item r st) =
      slices st @ map (chunkWindow d) [?s..<loopTotal item d ?s]"
    by (rule slices_start[OF key fil dec]) (use ext ok in simp_all)
  have n: "chunkCount d = nat \<lceil>d / 240\<rceil>" by (simp add: chunkCount_def CHUNK_DURATION_def)
  have dr: "?s = 0 \<or> duration item = 0 \<or> totalChunks item = 0 \<or>
          totalChunks item = nat \<lceil>d / 240\<rceil> \<longrightarrow>
            slices (startTranscription env item r st) = slices st @ drop ?s (windows d)"
  proof
    assume "?s = 0 \<or> duration item = 0 \<or> totalChunks item = 0 \<or>
          totalChunks item = nat \<lceil>d / 240\<rceil>"
    then have "loopTotal item d ?s = chunkCount d" unfolding n[symmetric] by (rule loopTotal_computed)
    then show "slices (startTranscription env item r st) = slices st @ drop ?s (windows d)"
      using sl by (simp add: drop_windows)
  qed
  note w = windows_partition[OF pos]
  show ?thesis using sl dr w by blast
qed

lemma windows_500: "windows 500 = [Mp3 0 240, Mp3 240 240, Mp3 480 20]"
proof -
  have u: "[0..<3] = [0, Suc 0, 2::nat]" by code_simp
  show ?thesis
    by (simp add: windows_def chunkCount_500 u chunkWindow_def sliceAudioBuffer_def
        CHUNK_DURATION_def Let_def)
qed

theorem run_walks_windows_witness:
  "(0::real) < 500 \<and>
   slices (startTranscription exEnv exFreshItem False exFreshState) =
     [Mp3 0 240, Mp3 240 240, Mp3 480 20] \<and>
   slices (startTranscription exEnv exPartItem True exPartState) = [Mp3 240 240, Mp3 480 20] \<and>
   sum_list (map windowLength [Mp3 0 240, Mp3 240 240, Mp3 480 20]) = 500"
proof -
  have pos: "(0::real) < 500" by simp
  have key: "apiKey exFreshState \<noteq> []" "apiKey exPartState \<noteq> []"
    by (simp_all add: exFreshState_def exPartState_def)
  have fil: "itemFile exFreshItem = Some (File ''talk.mp3'')"
    "itemFile exPartItem = Some (File ''talk.mp3'')"
    by (simp_all add: exFreshItem_def exPartItem_def)
  have dec: "decodeAudioFile exEnv (File ''talk.mp3'') = Inr 500" by (simp add: exEnv_def)
  have ext: "\<forall>j. external exEnv j = (\<lambda>q. q)" by (simp add: exEnv_def)
  have ok: "\<forall>j < loopTotal exFreshItem 500 (firstChunk exEnv exFreshItem False).
      transcribeChunk exEnv (apiKey exFreshState) (selectedModel exFreshState) 500 j =
        Inr ((\<lambda>j. ''matn'') j)"
    "\<forall>j < loopTotal exPartItem 500 (firstChunk exEnv exPartItem True).
      transcribeChunk exEnv (apiKey exPartState) (selectedModel exPartState) 500 j =
        Inr ((\<lambda>j. ''matn'') j)"
    by (simp_all add: exEnv_transcribes)
  have f0: "firstChunk exEnv exFreshItem False = 0"
    by (simp add: firstChunk_def restarts_def exFreshItem_def)
  have f1: "firstChunk exEnv exPartItem True = Suc 0"
    by (simp add: firstChunk_def restarts_def exPartItem_def exPartRaw_def)
  have t1: "totalChunks exPartItem = nat \<lceil>(500::real) / 240\<rceil>"
    using chunkCount_500 by (simp add: exPartItem_def chunkCount_def CHUNK_DURATION_def)
  have s0: "slices exFreshState = []" "slices exPartState = []"
    by (simp_all add: exFreshState_def exPartState_def)
  have a: "slices (startTranscription exEnv exFreshItem False exFreshState) = windows 500"
    using conjunct1 [OF conjunct2 [OF run_walks_windows [OF key(1) fil(1) dec pos ext ok(1)]]]
    by (simp add: f0 s0)
  have b: "slices (startTranscription exEnv exPartItem True exPartState) = drop (Suc 0) (windows 500)"
    using conjunct1 [OF conjunct2 [OF run_walks_windows [OF key(2) fil(2) dec pos ext ok(2)]]] t1
    by (simp add: f1 s0)
  have c: "sum_list (map windowLength (windows 500)) = 500"
    using run_walks_windows [OF key(1) fil(1) dec pos ext ok(1)] by simp
  show ?thesis using a b c by (simp add: windows_500)
qed

section \<open>The status of the item when a transcription starts\<close>

lemma chunkStep_item_cong:
  assumes "mid item' = mid item"
  shows "chunkStep env item' buf b tot i full st = chunkStep env item buf b tot i full st"
  unfolding chunkStep_def assms by (rule refl)

lemma chunkLoop_item_cong:
  assumes "mid item' = mid item"
  shows "chunkLoop env item' buf b tot i full st = chunkLoop env item buf b tot i full st"
proof (induction "tot - i" arbitrary: i full st)
  case 0
  then have "\<not> i < tot" by simp
  then show ?case by (simp add: chunkLoop_done)
next
  case (Suc n)
  then have lt: "i < tot" and n: "n = tot - Suc i" by simp_all
  show ?case
  proof (cases "chunkStep env item buf b tot i full st")
    case (Break st')
    then show ?thesis
      using lt by (simp add: chunkLoop_Break chunkStep_item_cong[OF assms])
  next
    case (Throw e st')
    then show ?thesis
      using lt by (simp add: chunkLoop_Throw chunkStep_item_cong[OF assms])
  next
    case (Continue full' st')
    have "chunkLoop env item' buf b tot i full st = chunkLoop env item' buf b tot (Suc i) full' st'"
      using lt Continue by (intro chunkLoop_Continue) (simp_all add: chunkStep_item_cong[OF assms])
    moreover have "chunkLoop env item buf b tot i full st = chunkLoop env item buf b tot (Suc i) full' st'"
      using lt Continue by (intro chunkLoop_Continue) simp_all
    ultimately show ?thesis using Suc.hyps(1)[OF n] by simp
  qed
qed

lemma runTranscription_status_cong:
  "runTranscription env (item\<lparr>status := s1\<rparr>) f s b full iv st =
   runTranscription env item f s b full iv st"
proof -
  have c: "\<And>full' dur tot st2. completeTranscription env (item\<lparr>status := s1\<rparr>) b full' iv dur tot st2 =
      completeTranscription env item b full' iv dur tot st2"
    by (simp add: completeTranscription_def Let_def)
  have l: "\<And>buf tot st1. chunkLoop env (item\<lparr>status := s1\<rparr>) buf b tot s full st1 =
      chunkLoop env item buf b tot s full st1"
    by (rule chunkLoop_item_cong) simp
  have t: "tryBlock env (item\<lparr>status := s1\<rparr>) f s b full iv st = tryBlock env item f s b full iv st"
    by (simp add: tryBlock_def c l Let_def
        cong: sum.case_cong prod.case_cong option.case_cong if_cong)
  show ?thesis
    by (simp add: runTranscription_def t cong: prod.case_cong option.case_cong)
qed

lemma resolveVersion_status_cong:
  "resolveVersion env (item\<lparr>status := s1\<rparr>) r s st = resolveVersion env item r s st"
  by (simp add: resolveVersion_def Let_def cong: option.case_cong if_cong)

lemma start_snapshot_status:
  "startTranscription env (item\<lparr>status := s1\<rparr>) r st = startTranscription env item r st"
proof (induction env item r st rule: startTranscription.induct)
  case (1 env item isResuming st)
  show ?case
  proof (cases "apiKey st = [] \<or> itemFile item = None")
    case True
    have "startTranscription env (item\<lparr>status := s1\<rparr>) isResuming st =
        (if apiKey st = [] then st\<lparr>showKeyModal := True\<rparr> else st)"
      using True by (subst startTranscription.simps) auto
    moreover have "startTranscription env item isResuming st =
        (if apiKey st = [] then st\<lparr>showKeyModal := True\<rparr> else st)"
      using True by (subst startTranscription.simps) auto
    ultimately show ?thesis by simp
  next
    case False
    then obtain f where key: "apiKey st \<noteq> []" and fil: "itemFile item = Some f" by auto
    have fil': "itemFile (item\<lparr>status := s1\<rparr>) = Some f" using fil by simp
    have ps: "processingState (item\<lparr>status := s1\<rparr>) st = processingState item st"
      by (simp add: processingState_def)
    show ?thesis
    proof (cases "resolveVersion env item isResuming (processedChunks item) (processingState item st)")
      case (Restart st2)
      have pc: "processedChunks (item\<lparr>status := s1\<rparr>) = processedChunks item" by simp
      have sw: "item\<lparr>status := s1\<rparr>\<lparr>processedChunks := 0\<rparr> = item\<lparr>processedChunks := 0\<rparr>\<lparr>status := s1\<rparr>"
        by (cases item) simp
      have "startTranscription env (item\<lparr>processedChunks := 0\<rparr>\<lparr>status := s1\<rparr>) False st2 =
            startTranscription env (item\<lparr>processedChunks := 0\<rparr>) False st2"
        by (rule "1.IH"[OF key fil refl refl]) (use Restart in \<open>simp add: processingState_def\<close>)
      then have ih: "startTranscription env (item\<lparr>status := s1\<rparr>\<lparr>processedChunks := 0\<rparr>) False st2 =
            startTranscription env (item\<lparr>processedChunks := 0\<rparr>) False st2"
        by (simp only: sw)
      have "startTranscription env (item\<lparr>status := s1\<rparr>) isResuming st =
            startTranscription env (item\<lparr>status := s1\<rparr>\<lparr>processedChunks := 0\<rparr>) False st2"
        by (simp only: start_unfold[OF key fil'] ps resolveVersion_status_cong pc Restart
            Resolution.case)
      moreover have "startTranscription env item isResuming st =
            startTranscription env (item\<lparr>processedChunks := 0\<rparr>) False st2"
        by (simp only: start_unfold[OF key fil] Restart Resolution.case)
      ultimately show ?thesis using ih by simp
    next
      case (Resolved b seed iv st2)
      then show ?thesis
        by (simp add: start_unfold[OF key fil] start_unfold[OF key fil'] ps
            resolveVersion_status_cong runTranscription_status_cong)
    qed
  qed
qed

lemma processingState_live_status:
  "processingState item (updateItem (mid item) (\<lambda>m. m\<lparr>status := s2\<rparr>) False st) =
   processingState item st"
  by (simp add: processingState_def updateItem_def comp_def cong: if_cong)

text \<open>
  Claim C4, as the code has it. \<open>startTranscription\<close> never reads the status of the item:
  with a key and a file present, the call on an item whose status is anything, in the
  snapshot and in the queue, also \<open>processing\<close>, is the same run as the call on the item
  as it was. The first thing the function does to the item is to set it to \<open>processing\<close>.
\<close>

theorem start_ignores_status:
  assumes key: "apiKey st \<noteq> []" and fil: "itemFile item = Some f"
  shows "startTranscription env (item\<lparr>status := s1\<rparr>) r
           (updateItem (mid item) (\<lambda>m. m\<lparr>status := s2\<rparr>) False st) =
         startTranscription env item r st"
proof -
  have key': "apiKey (updateItem (mid item) (\<lambda>m. m\<lparr>status := s2\<rparr>) False st) \<noteq> []"
    using key by simp
  have "startTranscription env item r (updateItem (mid item) (\<lambda>m. m\<lparr>status := s2\<rparr>) False st) =
        startTranscription env item r st"
    by (simp add: start_unfold[OF key fil] start_unfold[OF key' fil] processingState_live_status)
  then show ?thesis by (simp add: start_snapshot_status)
qed

theorem start_ignores_status_witness:
  "startTranscription exEnv exBusyItem True exBusyState =
   startTranscription exEnv exPartItem True exPartState"
proof -
  have key: "apiKey exPartState \<noteq> []" by (simp add: exPartState_def)
  have fil: "itemFile exPartItem = Some (File ''talk.mp3'')" by (simp add: exPartItem_def)
  have b: "updateItem (mid exPartItem) (\<lambda>m. m\<lparr>status := Processing\<rparr>) False exPartState = exBusyState"
    by (simp add: exBusyState_def exBusyItem_def exPartState_def updateItem_def)
  show ?thesis
    using start_ignores_status [OF key fil, of exEnv Processing True Processing]
    by (simp add: b exBusyItem_def)
qed

text \<open>
  Claim C4 as stated fails: called on an item that is already \<open>processing\<close>, in the snapshot
  and in the queue, the function does not return early; it runs the chunk loop and sends
  chunks 1 and 2.
\<close>

theorem start_on_processing_item_counterexample:
  "status exBusyItem = Processing \<and>
   findItem (mid exBusyItem) (mediaQueue exBusyState) = Some exBusyItem \<and>
   sent exBusyState = [] \<and>
   sent (startTranscription exEnv exBusyItem True exBusyState) = [1, 2]"
proof -
  have key: "apiKey exBusyState \<noteq> []" by (simp add: exBusyState_def exPartState_def)
  have fil: "itemFile exBusyItem = Some (File ''talk.mp3'')"
    by (simp add: exBusyItem_def exPartItem_def)
  have dec: "decodeAudioFile exEnv (File ''talk.mp3'') = Inr 500" by (simp add: exEnv_def)
  have tot: "0 < processedChunks exBusyItem \<longrightarrow> totalChunks exBusyItem = chunkCount 500"
    by (simp add: exBusyItem_def exPartItem_def chunkCount_500)
  have r1: "\<not> restarts exEnv exBusyItem True"
    by (simp add: restarts_def exBusyItem_def exPartItem_def)
  have p: "processedChunks exBusyItem = 1" by (simp add: exBusyItem_def exPartItem_def)
  have "sent (startTranscription exEnv exBusyItem True exBusyState) =
      sent exBusyState @ [(if restarts exEnv exBusyItem True then 0 else processedChunks exBusyItem)..<chunkCount 500]"
    by (rule sent_start_success[OF key fil dec tot, where t="\<lambda>j. ''matn''"])
       (simp_all add: exEnv_transcribes, simp add: exEnv_def)
  moreover have e: "sent exBusyState = []" by (simp add: exBusyState_def exPartState_def)
  moreover have "[1..<3] = [1, 2::nat]" by code_simp
  ultimately have "sent (startTranscription exEnv exBusyItem True exBusyState) = [1, 2]"
    by (simp add: r1 p chunkCount_500)
  moreover have "status exBusyItem = Processing" by (simp add: exBusyItem_def)
  moreover have "findItem (mid exBusyItem) (mediaQueue exBusyState) = Some exBusyItem"
    by (simp add: exBusyState_def findItem_def)
  ultimately show ?thesis using e by simp
qed

section \<open>The live item after a run\<close>

lemma findItem_decodedState:
  "findItem (mid item) (mediaQueue (decodedState item d s st)) =
   map_option (\<lambda>x. if s = 0 \<or> duration item = 0
                     then x\<lparr>duration := d, totalChunks := chunkCount d\<rparr> else x)
     (findItem (mid item) (mediaQueue st))"
  by (cases "findItem (mid item) (mediaQueue st)")
     (simp_all add: decodedState_def updateItem_def findItem_map_upd)

lemma live_resolved:
  assumes live: "findItem (mid item) (mediaQueue st) = Some item"
    and res: "resolveVersion env item r s (processingState item st) = Resolved b seed iv st2"
  shows "\<exists>m2. findItem (mid item) (mediaQueue st2) = Some m2 \<and> versions m2 = iv \<and>
           status m2 = Processing \<and> error m2 = None \<and>
           processedChunks m2 = processedChunks item"
  using resolve_Resolved_cases[OF res] live
  by (auto simp: findItem_processingState addVersionToItem_queue findItem_map_upd)

lemma failState_fields:
  "saved (failState buf item b tot s i full e st) = saved st"
  "sent (failState buf item b tot s i full e st) = sent st @ [s..<i] @ [i]"
  by (simp_all add: failState_def)

lemma findItem_updateItem:
  "(\<And>x. mid (g x) = mid x) \<Longrightarrow>
   findItem a (mediaQueue (updateItem a g c st)) = map_option g (findItem a (mediaQueue st))"
  by (simp add: updateItem_def findItem_map_upd)

lemma findItem_failState:
  assumes "findItem (mid item) (mediaQueue st) = Some m"
  shows "\<exists>m'. findItem (mid item) (mediaQueue (failState buf item b tot s i full e st)) = Some m' \<and>
      status m' = Paused \<and> error m' = Some (errorMessage e) \<and>
      processedChunks m' = (if s < i then i else processedChunks m) \<and>
      versions m' = (if s < i then patchContent b full (versions m) else versions m)"
  using assms
  by (simp add: failState_def findItem_updateItem findItem_map_upd findItem_commitState
      checkpoint_def patchContent_def)

lemma start_fail_live:
  assumes key: "apiKey st \<noteq> []" and fil: "itemFile item = Some f"
    and live: "findItem (mid item) (mediaQueue st) = Some item"
    and res: "resolveVersion env item r (processedChunks item) (processingState item st)
                = Resolved b seed iv st2"
    and dec: "decodeAudioFile env f = Inr d"
    and tot: "0 < processedChunks item \<longrightarrow> totalChunks item = chunkCount d"
    and ext: "\<And>j. processedChunks item \<le> j \<Longrightarrow> j \<le> i \<Longrightarrow> external env j = (\<lambda>q. q)"
    and ok: "\<And>j. processedChunks item \<le> j \<Longrightarrow> j < i \<Longrightarrow>
               transcribeChunk env (apiKey st) (selectedModel st) d j = Inr (t j)"
    and pay: "chunkPayload env d i = Inr p"
    and bad: "transcribeChunk env (apiKey st) (selectedModel st) d i = Inl e"
    and si: "processedChunks item \<le> i" and it: "i < chunkCount d"
  shows "\<exists>m. findItem (mid item) (mediaQueue (startTranscription env item r st)) = Some m \<and>
           status m = Paused \<and> error m = Some (errorMessage e) \<and> processedChunks m = i \<and>
           versions m =
             (if processedChunks item < i
              then patchContent b (appendChunks t seed (processedChunks item) i) iv else iv)"
    and "saved (startTranscription env item r st) = saved st"
    and "sent (startTranscription env item r st) = sent st @ [processedChunks item..<Suc i]"
proof -
  let ?s = "processedChunks item"
  note f = resolve_Resolved_fields[OF res]
  have run: "\<not> pausedWithoutError (findItem (mid item) (mediaQueue st2))"
    by (simp add: f(5))
  have ok2: "\<And>j. ?s \<le> j \<Longrightarrow> j < i \<Longrightarrow>
      transcribeChunk env (apiKey st2) (selectedModel st2) d j = Inr (t j)"
    using ok by (simp add: f)
  have bad2: "transcribeChunk env (apiKey st2) (selectedModel st2) d i = Inl e"
    using bad by (simp add: f)
  have eq: "startTranscription env item r st =
      failState d item b (chunkCount d) ?s i (appendChunks t seed ?s i) e (decodedState item d ?s st2)"
    by (simp add: start_unfold[OF key fil] res run_fail[OF dec tot run ext ok2 pay bad2 si it])
  obtain m2 where m2: "findItem (mid item) (mediaQueue st2) = Some m2" "versions m2 = iv"
      "processedChunks m2 = processedChunks item"
    using live_resolved[OF live res] by blast
  let ?m3 = "if ?s = 0 \<or> duration item = 0
                     then m2\<lparr>duration := d, totalChunks := chunkCount d\<rparr> else m2"
  have m3: "findItem (mid item) (mediaQueue (decodedState item d ?s st2)) = Some ?m3"
    by (simp add: findItem_decodedState m2(1))
  have v3: "versions ?m3 = iv" "processedChunks ?m3 = ?s" using m2 by simp_all
  from findItem_failState[OF m3, of d b "chunkCount d" ?s i "appendChunks t seed ?s i" e]
  obtain m' where m': "findItem (mid item) (mediaQueue (failState d item b (chunkCount d) ?s i
        (appendChunks t seed ?s i) e (decodedState item d ?s st2))) = Some m'"
    "status m' = Paused" "error m' = Some (errorMessage e)"
    "processedChunks m' = (if ?s < i then i else processedChunks ?m3)"
    "versions m' = (if ?s < i then patchContent b (appendChunks t seed ?s i) (versions ?m3)
                    else versions ?m3)"
    by blast
  have pc: "processedChunks m' = i" using m'(4) v3(2) si by (simp split: if_splits)
  show "\<exists>m. findItem (mid item) (mediaQueue (startTranscription env item r st)) = Some m \<and>
           status m = Paused \<and> error m = Some (errorMessage e) \<and> processedChunks m = i \<and>
           versions m =
             (if processedChunks item < i
              then patchContent b (appendChunks t seed (processedChunks item) i) iv else iv)"
    unfolding eq using m'(1,2,3,5) pc v3(1) by (intro exI[of _ m']) (simp only: simp_thms)
  show "saved (startTranscription env item r st) = saved st"
    by (simp add: eq failState_fields f)
  show "sent (startTranscription env item r st) = sent st @ [processedChunks item..<Suc i]"
    using si by (simp add: eq failState_fields f)
qed

lemma transcribeSegment_all_fail:
  assumes "\<And>n m. gen n m dat = Inl (err n m)"
  shows "fst (transcribeSegment gen clean key dat mime sel) =
         Inl (err (3 * length (uniqueModels sel) - 1) (last (uniqueModels sel)))"
proof -
  have a: "\<And>n m. (\<lambda>n model. gen n model dat) n m = Inl (err n m)" using assms by simp
  have ne: "uniqueModels sel \<noteq> []" by (simp add: uniqueModels_eq)
  show ?thesis
    using ne
    by (simp add: transcribeSegment_def modelLoop_all_fail[where err=err, OF a] initRetry_def)
qed

lemma exEnvFailAt1_ok:
  "j \<noteq> 1 \<Longrightarrow> transcribeChunk exEnvFailAt1 key model d j = Inr ''matn''"
  by (simp add: transcribeChunk_def chunkPayload_def sliceAudioBuffer_def Let_def
      transcribeSegment_def uniqueModels_eq initRetry_def textOrEmpty_def exEnv_def
      exEnvFailAt1_def)

lemma exEnvFailAt1_payload: "chunkPayload exEnvFailAt1 d j = Inr ''AAAA''"
  by (simp add: chunkPayload_def sliceAudioBuffer_def Let_def exEnv_def exEnvFailAt1_def)

lemma exEnvFailAt1_bad:
  "transcribeChunk exEnvFailAt1 key model d 1 = Inl (Error ''503 unavailable'')"
proof -
  have g: "generateContent exEnvFailAt1 (Suc 0) = remoteDown" by (simp add: exEnvFailAt1_def)
  have c: "\<And>n m. remoteDown n m ''AAAA'' = Inl ((\<lambda>n m. Error ''503 unavailable'') n m)"
    by (simp add: remoteDown_def)
  show ?thesis
    by (simp add: transcribeChunk_def exEnvFailAt1_payload g
        transcribeSegment_all_fail[of remoteDown "''AAAA''" "\<lambda>n m. Error ''503 unavailable''", OF c])
qed

text \<open>
  Claim C5. When a run has got past its guards and its version block (base identifier
  \<open>b\<close>, seed transcript, initial versions), nothing interferes, the chunks from the start
  index up to \<open>i - 1\<close> are transcribed and the remote call for chunk \<open>i\<close> fails after the
  retries of \<open>transcribeSegment\<close>: the item is left \<open>paused\<close> (not \<open>error\<close>), its error is
  the message of the failure (the fixed connection message when that is empty),
  \<open>processedChunks\<close> is \<open>i\<close>, the versions are the initial ones with the base version
  holding the seed and the texts of the committed chunks, nothing was saved, and the
  chunks sent are those up to \<open>i\<close>.
\<close>

theorem remote_failure_pauses_run:
  assumes key: "apiKey st \<noteq> []" and fil: "itemFile item = Some f"
    and live: "findItem (mid item) (mediaQueue st) = Some item"
    and res: "resolveVersion env item r (processedChunks item) (processingState item st)
                = Resolved b seed iv st2"
    and dec: "decodeAudioFile env f = Inr d"
    and tot: "0 < processedChunks item \<longrightarrow> totalChunks item = chunkCount d"
    and ext: "\<forall>j \<le> i. external env j = (\<lambda>q. q)"
    and ok: "\<forall>j < i. processedChunks item \<le> j \<longrightarrow>
               transcribeChunk env (apiKey st) (selectedModel st) d j = Inr (t j)"
    and pay: "chunkPayload env d i = Inr p"
    and bad: "transcribeChunk env (apiKey st) (selectedModel st) d i = Inl e"
    and si: "processedChunks item \<le> i" and it: "i < chunkCount d"
  shows "\<exists>m. findItem (mid item) (mediaQueue (startTranscription env item r st)) = Some m \<and>
           status m = Paused \<and> error m = Some (errorMessage e) \<and>
           (message e \<noteq> [] \<longrightarrow> error m = Some (message e)) \<and>
           processedChunks m = i \<and>
           versions m =
             (if processedChunks item < i
              then patchContent b (appendChunks t seed (processedChunks item) i) iv else iv) \<and>
           saved (startTranscription env item r st) = saved st \<and>
           sent (startTranscription env item r st) = sent st @ [processedChunks item..<Suc i]"
proof -
  have ext': "\<And>j. processedChunks item \<le> j \<Longrightarrow> j \<le> i \<Longrightarrow> external env j = (\<lambda>q. q)"
    using ext by simp
  have ok': "\<And>j. processedChunks item \<le> j \<Longrightarrow> j < i \<Longrightarrow>
               transcribeChunk env (apiKey st) (selectedModel st) d j = Inr (t j)"
    using ok by simp
  note l = start_fail_live[OF key fil live res dec tot ext' ok' pay bad si it]
  from l(1) obtain m where m: "findItem (mid item) (mediaQueue (startTranscription env item r st)) = Some m"
    "status m = Paused" "error m = Some (errorMessage e)" "processedChunks m = i"
    "versions m = (if processedChunks item < i
              then patchContent b (appendChunks t seed (processedChunks item) i) iv else iv)"
    by blast
  have "message e \<noteq> [] \<longrightarrow> error m = Some (message e)"
    using m(3) by (simp add: errorMessage_def)
  then show ?thesis using m l(2,3) by (intro exI[of _ m]) (simp only: simp_thms)
qed

theorem remote_failure_pauses_run_witness:
  "map_option status (findItem ''a'' (mediaQueue (startTranscription exEnvFailAt1 exFreshItem False exFreshState)))
     = Some Paused \<and>
   map_option error (findItem ''a'' (mediaQueue (startTranscription exEnvFailAt1 exFreshItem False exFreshState)))
     = Some (Some ''503 unavailable'') \<and>
   map_option processedChunks (findItem ''a'' (mediaQueue (startTranscription exEnvFailAt1 exFreshItem False exFreshState)))
     = Some 1 \<and>
   map_option (map content \<circ> versions) (findItem ''a'' (mediaQueue (startTranscription exEnvFailAt1 exFreshItem False exFreshState)))
     = Some [''matn ''] \<and>
   saved (startTranscription exEnvFailAt1 exFreshItem False exFreshState) = [] \<and>
   sent (startTranscription exEnvFailAt1 exFreshItem False exFreshState) = [0, 1]"
proof -
  let ?nv = "rawVersion ''v2'' NAME_RAW_GENERATING [] 1"
  have key: "apiKey exFreshState \<noteq> []" by (simp add: exFreshState_def)
  have fil: "itemFile exFreshItem = Some (File ''talk.mp3'')" by (simp add: exFreshItem_def)
  have live: "findItem (mid exFreshItem) (mediaQueue exFreshState) = Some exFreshItem"
    by (simp add: exFreshState_def findItem_def)
  have res: "resolveVersion exEnvFailAt1 exFreshItem False (processedChunks exFreshItem)
               (processingState exFreshItem exFreshState) =
             Resolved ''v2'' [] [?nv]
               (addVersionToItem ''a'' ?nv True (processingState exFreshItem exFreshState))"
    by (simp add: resolveVersion_def exFreshItem_def exEnvFailAt1_def exEnv_def Let_def)
  have dec: "decodeAudioFile exEnvFailAt1 (File ''talk.mp3'') = Inr 500"
    by (simp add: exEnvFailAt1_def exEnv_def)
  have tot: "0 < processedChunks exFreshItem \<longrightarrow> totalChunks exFreshItem = chunkCount 500"
    by (simp add: exFreshItem_def)
  have ext: "\<forall>j \<le> 1. external exEnvFailAt1 j = (\<lambda>q. q)"
    by (simp add: exEnvFailAt1_def exEnv_def)
  have ok: "\<forall>j < 1. processedChunks exFreshItem \<le> j \<longrightarrow>
      transcribeChunk exEnvFailAt1 (apiKey exFreshState) (selectedModel exFreshState) 500 j
        = Inr ((\<lambda>j. ''matn'') j)"
    by (simp add: exEnvFailAt1_ok)
  have si: "processedChunks exFreshItem \<le> 1" by (simp add: exFreshItem_def)
  have it: "1 < chunkCount 500" by (simp add: chunkCount_500)
  have p0: "processedChunks exFreshItem = 0" "mid exFreshItem = ''a''"
    by (simp_all add: exFreshItem_def)
  have u: "[0..<Suc 1] = [0, 1]" by code_simp
  have a: "appendChunks (\<lambda>j. ''matn'') [] 0 (Suc 0) = ''matn ''" by (simp add: appendChunks_def)
  show ?thesis
    using remote_failure_pauses_run [OF key fil live res dec tot ext ok exEnvFailAt1_payload
        exEnvFailAt1_bad si it]
    by (auto simp: p0 u a patchContent_def rawVersion_def errorMessage_def exFreshState_def)
qed

lemma findItem_userPause:
  "findItem a (userPause a q) = map_option (\<lambda>x. x\<lparr>status := Paused\<rparr>) (findItem a q)"
  by (simp add: userPause_def findItem_map_upd)

lemma start_pause_live:
  assumes key: "apiKey st \<noteq> []" and fil: "itemFile item = Some f"
    and live: "findItem (mid item) (mediaQueue st) = Some item"
    and res: "resolveVersion env item r (processedChunks item) (processingState item st)
                = Resolved b seed iv st2"
    and dec: "decodeAudioFile env f = Inr d"
    and tot: "0 < processedChunks item \<longrightarrow> totalChunks item = chunkCount d"
    and ext: "\<And>j. processedChunks item \<le> j \<Longrightarrow> j < i \<Longrightarrow> external env j = (\<lambda>q. q)"
    and ok: "\<And>j. processedChunks item \<le> j \<Longrightarrow> j < i \<Longrightarrow>
               transcribeChunk env (apiKey st) (selectedModel st) d j = Inr (t j)"
    and si: "processedChunks item \<le> i" and it: "i < chunkCount d"
    and pz: "external env i = userPause (mid item)"
  shows "\<exists>m. findItem (mid item) (mediaQueue (startTranscription env item r st)) = Some m \<and>
           status m = Paused \<and> error m = None \<and> processedChunks m = i"
    and "saved (startTranscription env item r st) = saved st"
    and "sent (startTranscription env item r st) = sent st @ [processedChunks item..<i]"
proof -
  let ?s = "processedChunks item"
  let ?st3 = "decodedState item d ?s st2"
  let ?c = "commitState d (mid item) b (chunkCount d) ?s i (appendChunks t seed ?s i) ?st3"
  note f = resolve_Resolved_fields[OF res]
  have run: "\<not> pausedWithoutError (findItem (mid item) (mediaQueue st2))"
    by (simp add: f(5))
  have ok2: "\<And>j. ?s \<le> j \<Longrightarrow> j < i \<Longrightarrow>
      transcribeChunk env (apiKey st2) (selectedModel st2) d j = Inr (t j)"
    using ok by (simp add: f)
  obtain m2 where m2: "findItem (mid item) (mediaQueue st2) = Some m2" "error m2 = None"
      "processedChunks m2 = processedChunks item"
    using live_resolved[OF live res] by blast
  let ?m3 = "if ?s = 0 \<or> duration item = 0
                     then m2\<lparr>duration := d, totalChunks := chunkCount d\<rparr> else m2"
  have m3: "findItem (mid item) (mediaQueue ?st3) = Some ?m3"
    by (simp add: findItem_decodedState m2(1))
  let ?m4 = "if ?s < i then checkpoint b (chunkCount d) i (appendChunks t seed ?s i) ?m3 else ?m3"
  have m4: "findItem (mid item) (mediaQueue ?c) = Some ?m4"
    by (simp add: findItem_commitState m3)
  have e4: "error ?m4 = None" "processedChunks ?m4 = i"
    using m2(2,3) si by (auto simp: checkpoint_def)
  have m5: "findItem (mid item) (external env i (mediaQueue ?c)) = Some (?m4\<lparr>status := Paused\<rparr>)"
    unfolding pz findItem_userPause m4 by simp
  have pz': "pausedWithoutError (findItem (mid item) (external env i (mediaQueue ?c)))"
    unfolding m5 using e4(1) by (simp add: pausedWithoutError_def noError_def)
  have eq: "startTranscription env item r st = ?c\<lparr>mediaQueue := external env i (mediaQueue ?c)\<rparr>"
    by (simp add: start_unfold[OF key fil] res run_pause[OF dec tot run ext ok2 si it pz'])
  show "\<exists>m. findItem (mid item) (mediaQueue (startTranscription env item r st)) = Some m \<and>
           status m = Paused \<and> error m = None \<and> processedChunks m = i"
    unfolding eq using m5 e4 by (intro exI[of _ "?m4\<lparr>status := Paused\<rparr>"]) simp
  show "saved (startTranscription env item r st) = saved st"
    by (simp add: eq f)
  show "sent (startTranscription env item r st) = sent st @ [processedChunks item..<i]"
    by (simp add: eq f)
qed

lemma errorMessage_nonempty: "errorMessage e \<noteq> []"
  by (simp add: errorMessage_def MSG_CONNECTION_def)

text \<open>
  Claim C8. In a run that has reached iteration \<open>i\<close> undisturbed: if the item is set to
  \<open>paused\<close> from outside before the iteration, the loop breaks, the run ends with the item
  paused and its error still absent, nothing is saved and chunk \<open>i\<close> is not sent; if instead
  the remote call for chunk \<open>i\<close> fails, the run ends with the item paused and its error set
  to the message, which is never empty.
\<close>

theorem pause_versus_failure:
  assumes key: "apiKey st \<noteq> []" and fil: "itemFile item = Some f"
    and live: "findItem (mid item) (mediaQueue st) = Some item"
    and res: "resolveVersion env item r (processedChunks item) (processingState item st)
                = Resolved b seed iv st2"
    and dec: "decodeAudioFile env f = Inr d"
    and tot: "0 < processedChunks item \<longrightarrow> totalChunks item = chunkCount d"
    and ext: "\<forall>j < i. external env j = (\<lambda>q. q)"
    and ok: "\<forall>j < i. processedChunks item \<le> j \<longrightarrow>
               transcribeChunk env (apiKey st) (selectedModel st) d j = Inr (t j)"
    and si: "processedChunks item \<le> i" and it: "i < chunkCount d"
  shows "(external env i = userPause (mid item) \<longrightarrow>
           (\<exists>m. findItem (mid item) (mediaQueue (startTranscription env item r st)) = Some m \<and>
                status m = Paused \<and> error m = None \<and> processedChunks m = i) \<and>
           saved (startTranscription env item r st) = saved st \<and>
           sent (startTranscription env item r st) = sent st @ [processedChunks item..<i]) \<and>
         (external env i = (\<lambda>q. q) \<and> chunkPayload env d i = Inr p \<and>
          transcribeChunk env (apiKey st) (selectedModel st) d i = Inl e \<longrightarrow>
           (\<exists>m. findItem (mid item) (mediaQueue (startTranscription env item r st)) = Some m \<and>
                status m = Paused \<and> error m = Some (errorMessage e) \<and>
                errorMessage e \<noteq> [] \<and> \<not> noError m))"
proof (intro conjI impI)
  have ext': "\<And>j. processedChunks item \<le> j \<Longrightarrow> j < i \<Longrightarrow> external env j = (\<lambda>q. q)"
    using ext by simp
  have ok': "\<And>j. processedChunks item \<le> j \<Longrightarrow> j < i \<Longrightarrow>
               transcribeChunk env (apiKey st) (selectedModel st) d j = Inr (t j)"
    using ok by simp
  {
    assume pz: "external env i = userPause (mid item)"
    note l = start_pause_live[OF key fil live res dec tot ext' ok' si it pz]
    show "\<exists>m. findItem (mid item) (mediaQueue (startTranscription env item r st)) = Some m \<and>
                status m = Paused \<and> error m = None \<and> processedChunks m = i" by (rule l(1))
    show "saved (startTranscription env item r st) = saved st" by (rule l(2))
    show "sent (startTranscription env item r st) = sent st @ [processedChunks item..<i]"
      by (rule l(3))
  }
  {
    assume a: "external env i = (\<lambda>q. q) \<and> chunkPayload env d i = Inr p \<and>
          transcribeChunk env (apiKey st) (selectedModel st) d i = Inl e"
    have ext2: "\<And>j. processedChunks item \<le> j \<Longrightarrow> j \<le> i \<Longrightarrow> external env j = (\<lambda>q. q)"
      using ext a by (auto simp: le_less)
    from start_fail_live(1)[OF key fil live res dec tot ext2 ok' _ _ si it, of p e] a
    obtain m where m: "findItem (mid item) (mediaQueue (startTranscription env item r st)) = Some m"
      "status m = Paused" "error m = Some (errorMessage e)" by blast
    have "\<not> noError m" using m(3) by (simp add: noError_def errorMessage_nonempty)
    then show "\<exists>m. findItem (mid item) (mediaQueue (startTranscription env item r st)) = Some m \<and>
                status m = Paused \<and> error m = Some (errorMessage e) \<and>
                errorMessage e \<noteq> [] \<and> \<not> noError m"
      using m errorMessage_nonempty by (intro exI[of _ m]) simp
  }
qed

lemma exEnvPauseAt1_ok: "transcribeChunk exEnvPauseAt1 key model d j = Inr ''matn''"
  by (simp add: transcribeChunk_def chunkPayload_def sliceAudioBuffer_def Let_def
      transcribeSegment_def uniqueModels_eq initRetry_def textOrEmpty_def exEnv_def
      exEnvPauseAt1_def)

theorem pause_versus_failure_witness:
  "map_option error (findItem ''a'' (mediaQueue (startTranscription exEnvPauseAt1 exFreshItem False exFreshState)))
     = Some None \<and>
   map_option status (findItem ''a'' (mediaQueue (startTranscription exEnvPauseAt1 exFreshItem False exFreshState)))
     = Some Paused \<and>
   sent (startTranscription exEnvPauseAt1 exFreshItem False exFreshState) = [0] \<and>
   map_option error (findItem ''a'' (mediaQueue (startTranscription exEnvFailAt1 exFreshItem False exFreshState)))
     = Some (Some ''503 unavailable'')"
proof -
  let ?nv = "rawVersion ''v2'' NAME_RAW_GENERATING [] 1"
  have key: "apiKey exFreshState \<noteq> []" by (simp add: exFreshState_def)
  have fil: "itemFile exFreshItem = Some (File ''talk.mp3'')" by (simp add: exFreshItem_def)
  have live: "findItem (mid exFreshItem) (mediaQueue exFreshState) = Some exFreshItem"
    by (simp add: exFreshState_def findItem_def)
  have res1: "resolveVersion exEnvPauseAt1 exFreshItem False (processedChunks exFreshItem)
               (processingState exFreshItem exFreshState) =
             Resolved ''v2'' [] [?nv]
               (addVersionToItem ''a'' ?nv True (processingState exFreshItem exFreshState))"
    by (simp add: resolveVersion_def exFreshItem_def exEnvPauseAt1_def exEnv_def Let_def)
  have res2: "resolveVersion exEnvFailAt1 exFreshItem False (processedChunks exFreshItem)
               (processingState exFreshItem exFreshState) =
             Resolved ''v2'' [] [?nv]
               (addVersionToItem ''a'' ?nv True (processingState exFreshItem exFreshState))"
    by (simp add: resolveVersion_def exFreshItem_def exEnvFailAt1_def exEnv_def Let_def)
  have dec1: "decodeAudioFile exEnvPauseAt1 (File ''talk.mp3'') = Inr 500"
    by (simp add: exEnvPauseAt1_def exEnv_def)
  have dec2: "decodeAudioFile exEnvFailAt1 (File ''talk.mp3'') = Inr 500"
    by (simp add: exEnvFailAt1_def exEnv_def)
  have tot: "0 < processedChunks exFreshItem \<longrightarrow> totalChunks exFreshItem = chunkCount 500"
    by (simp add: exFreshItem_def)
  have ext1: "\<forall>j < 1. external exEnvPauseAt1 j = (\<lambda>q. q)"
    by (simp add: exEnvPauseAt1_def exEnv_def)
  have ext2: "\<forall>j < 1. external exEnvFailAt1 j = (\<lambda>q. q)"
    by (simp add: exEnvFailAt1_def exEnv_def)
  have ok1: "\<forall>j < 1. processedChunks exFreshItem \<le> j \<longrightarrow>
      transcribeChunk exEnvPauseAt1 (apiKey exFreshState) (selectedModel exFreshState) 500 j
        = Inr ((\<lambda>j. ''matn'') j)"
    by (simp add: exEnvPauseAt1_ok)
  have ok2: "\<forall>j < 1. processedChunks exFreshItem \<le> j \<longrightarrow>
      transcribeChunk exEnvFailAt1 (apiKey exFreshState) (selectedModel exFreshState) 500 j
        = Inr ((\<lambda>j. ''matn'') j)"
    by (simp add: exEnvFailAt1_ok)
  have si: "processedChunks exFreshItem \<le> 1" by (simp add: exFreshItem_def)
  have it: "1 < chunkCount 500" by (simp add: chunkCount_500)
  have p0: "processedChunks exFreshItem = 0" "mid exFreshItem = ''a''"
    by (simp_all add: exFreshItem_def)
  have pz: "external exEnvPauseAt1 1 = userPause (mid exFreshItem)"
    by (simp add: exEnvPauseAt1_def p0)
  have fl: "external exEnvFailAt1 1 = (\<lambda>q. q)" by (simp add: exEnvFailAt1_def exEnv_def)
  have e0: "sent exFreshState = []" by (simp add: exFreshState_def)
  have u: "[0..<1] = [0::nat]" by code_simp
  from pause_versus_failure [OF key fil live res1 dec1 tot ext1 ok1 si it,
      of "''AAAA''" "Error ''503 unavailable''"] pz
  have a: "(\<exists>m. findItem (mid exFreshItem) (mediaQueue (startTranscription exEnvPauseAt1 exFreshItem False exFreshState)) = Some m \<and>
                status m = Paused \<and> error m = None \<and> processedChunks m = 1) \<and>
           sent (startTranscription exEnvPauseAt1 exFreshItem False exFreshState) =
             sent exFreshState @ [processedChunks exFreshItem..<1]"
    by blast
  from pause_versus_failure [OF key fil live res2 dec2 tot ext2 ok2 si it,
      of "''AAAA''" "Error ''503 unavailable''"] fl exEnvFailAt1_payload exEnvFailAt1_bad
  have b: "\<exists>m. findItem (mid exFreshItem) (mediaQueue (startTranscription exEnvFailAt1 exFreshItem False exFreshState)) = Some m \<and>
                status m = Paused \<and> error m = Some (errorMessage (Error ''503 unavailable''))"
    by blast
  show ?thesis using a b by (auto simp: p0 e0 u errorMessage_def)
qed

section \<open>Resuming an interrupted run\<close>

lemma find_map_pres:
  "(\<And>x. P (g x) = P x) \<Longrightarrow> find P (map g xs) = map_option g (find P xs)"
  by (induction xs) auto

lemma findRaw_patch:
  "findRaw (map (\<lambda>v. if vid v = b then v\<lparr>content := c, name := n\<rparr> else v) vs) =
   map_option (\<lambda>v. if vid v = b then v\<lparr>content := c, name := n\<rparr> else v) (findRaw vs)"
  unfolding findRaw_def by (rule find_map_pres) simp

lemma findRaw_rename:
  "findRaw (map (\<lambda>v. if vid v = b then v\<lparr>name := n\<rparr> else v) vs) =
   map_option (\<lambda>v. if vid v = b then v\<lparr>name := n\<rparr> else v) (findRaw vs)"
  unfolding findRaw_def by (rule find_map_pres) simp

lemma findItem_patchVersions:
  "findItem a (mediaQueue (patchVersions a g b st)) =
   map_option (\<lambda>x. x\<lparr>versions := map (\<lambda>v. if vid v = b then g v else v) (versions x)\<rparr>)
     (findItem a (mediaQueue st))"
proof -
  have "mediaQueue (patchVersions a g b st) =
      map (\<lambda>x. if mid x = a
                then x\<lparr>versions := map (\<lambda>v. if vid v = b then g v else v) (versions x)\<rparr> else x)
        (mediaQueue st)"
    by (simp add: patchVersions_def cong: if_cong)
  then show ?thesis by (simp add: findItem_map_upd)
qed

lemma findItem_completeTranscription:
  "findItem (mid item) (mediaQueue (completeTranscription env item b full iv dur tot st)) =
   map_option (\<lambda>x. x\<lparr>status := Completed, progress := 100,
                      versions := map (\<lambda>v. if vid v = b then v\<lparr>name := NAME_RAW_COMPLETE\<rparr> else v)
                                    (versions x)\<rparr>)
     (findItem (mid item) (mediaQueue st))"
  by (cases "findItem (mid item) (mediaQueue st)")
     (simp_all add: completeTranscription_def Let_def handleSaveToCloud_def findItem_patchVersions
        findItem_updateItem)

lemma start_success_live:
  assumes key: "apiKey st \<noteq> []" and fil: "itemFile item = Some f"
    and live: "findItem (mid item) (mediaQueue st) = Some item"
    and res: "resolveVersion env item r (processedChunks item) (processingState item st)
                = Resolved b seed iv st2"
    and dec: "decodeAudioFile env f = Inr d"
    and tot: "0 < processedChunks item \<longrightarrow> totalChunks item = chunkCount d"
    and ext: "\<And>j. external env j = (\<lambda>q. q)"
    and ok: "\<And>j. j < chunkCount d \<Longrightarrow>
               transcribeChunk env (apiKey st) (selectedModel st) d j = Inr (t j)"
  shows "\<exists>m. findItem (mid item) (mediaQueue (startTranscription env item r st)) = Some m \<and>
           status m = Completed \<and>
           versions m =
             map (\<lambda>v. if vid v = b then v\<lparr>name := NAME_RAW_COMPLETE\<rparr> else v)
               (if processedChunks item < chunkCount d
                then patchContent b (appendChunks t seed (processedChunks item) (chunkCount d)) iv
                else iv)"
proof -
  let ?s = "processedChunks item"
  let ?T = "chunkCount d"
  let ?st3 = "decodedState item d ?s st2"
  let ?full = "appendChunks t seed ?s ?T"
  let ?c = "commitState d (mid item) b ?T ?s ?T ?full ?st3"
  note f = resolve_Resolved_fields[OF res]
  have run: "\<not> pausedWithoutError (findItem (mid item) (mediaQueue st2))"
    by (simp add: f(5))
  have ok2: "\<And>j. ?s \<le> j \<Longrightarrow> j < ?T \<Longrightarrow>
      transcribeChunk env (apiKey st2) (selectedModel st2) d j = Inr (t j)"
    using ok by (simp add: f)
  have eq: "startTranscription env item r st =
      completeTranscription env item b ?full iv
        (if ?s = 0 \<or> duration item = 0 then d else duration item) ?T ?c"
    by (simp add: start_unfold[OF key fil] res run_success[OF dec tot run ext ok2])
  obtain m2 where m2: "findItem (mid item) (mediaQueue st2) = Some m2" "versions m2 = iv"
    using live_resolved[OF live res] by blast
  let ?m3 = "if ?s = 0 \<or> duration item = 0
                     then m2\<lparr>duration := d, totalChunks := chunkCount d\<rparr> else m2"
  have m3: "findItem (mid item) (mediaQueue ?st3) = Some ?m3"
    by (simp add: findItem_decodedState m2(1))
  let ?m4 = "if ?s < ?T then checkpoint b ?T ?T ?full ?m3 else ?m3"
  have m4: "findItem (mid item) (mediaQueue ?c) = Some ?m4"
    by (simp add: findItem_commitState m3)
  have v4: "versions ?m4 = (if ?s < ?T then patchContent b ?full iv else iv)"
    using m2(2) by (simp add: checkpoint_def patchContent_def)
  show ?thesis
    unfolding eq findItem_completeTranscription m4
    using v4 by simp
qed

lemma resolve_resume_existing:
  assumes "findRaw (versions item) = Some v"
  shows "resolveVersion env item True s st1 = Resolved (vid v) (content v) (versions item) st1"
proof -
  have "versions item \<noteq> []" using assms by (auto simp: findRaw_def)
  then show ?thesis using assms by (simp add: resolveVersion_def)
qed

lemma resolve_fresh:
  assumes "processedChunks item = 0" "versions item = []"
  shows "resolveVersion env item r 0 st1 =
     Resolved (uuidv4 env) [] [rawVersion (uuidv4 env) NAME_RAW_GENERATING [] (now env)]
       (addVersionToItem (mid item) (rawVersion (uuidv4 env) NAME_RAW_GENERATING [] (now env)) True st1)"
  using assms by (simp add: resolveVersion_def Let_def)

text \<open>
  Resuming where the first RAW version of the item is the one the interrupted run wrote
  to (so in particular where the item has one RAW version). The item has
  \<open>processedChunks = k\<close>, its first RAW version holds the transcript of the chunks below
  \<open>k\<close>, its total is the chunk count of the audio, it is started with
  \<open>isResuming = true\<close>, and every remaining remote call answers as given by \<open>t\<close>. Then the
  run sends exactly the chunks \<open>k\<close> up to the total, extends the content of that version
  from what it held, and ends \<open>completed\<close> with the content that an uninterrupted run of
  a fresh item over the same answers ends with.
\<close>

lemma resume_from_first_raw:
  assumes key: "apiKey st \<noteq> []" and fil: "itemFile item = Some f"
    and live: "findItem (mid item) (mediaQueue st) = Some item"
    and raw: "findRaw (versions item) = Some v"
    and ckpt: "content v = appendChunks t [] 0 (processedChunks item)"
    and n: "totalChunks item = chunkCount d" and kn: "processedChunks item \<le> chunkCount d"
    and dec: "decodeAudioFile env f = Inr d"
    and ext: "\<forall>j. external env j = (\<lambda>q. q)"
    and ok: "\<forall>j < chunkCount d. transcribeChunk env (apiKey st) (selectedModel st) d j = Inr (t j)"
    and fresh: "processedChunks item0 = 0" "versions item0 = []" "itemFile item0 = Some f"
      "findItem (mid item0) (mediaQueue st0) = Some item0"
      "apiKey st0 = apiKey st" "selectedModel st0 = selectedModel st"
  shows "sent (startTranscription env item True st) =
           sent st @ [processedChunks item..<chunkCount d] \<and>
         (\<exists>m v'. findItem (mid item) (mediaQueue (startTranscription env item True st)) = Some m \<and>
            status m = Completed \<and> findRaw (versions m) = Some v' \<and> vid v' = vid v \<and>
            content v' = appendChunks t (content v) (processedChunks item) (chunkCount d) \<and>
            content v' = appendChunks t [] 0 (chunkCount d)) \<and>
         (\<exists>m0 v0. findItem (mid item0) (mediaQueue (startTranscription env item0 r0 st0)) = Some m0 \<and>
            status m0 = Completed \<and> findRaw (versions m0) = Some v0 \<and>
            content v0 = appendChunks t [] 0 (chunkCount d) \<and>
            sent (startTranscription env item0 r0 st0) = sent st0 @ [0..<chunkCount d])"
proof (intro conjI)
  let ?k = "processedChunks item"
  let ?T = "chunkCount d"
  have ext': "\<And>j. external env j = (\<lambda>q. q)" using ext by simp
  have ok': "\<And>j. j < ?T \<Longrightarrow> transcribeChunk env (apiKey st) (selectedModel st) d j = Inr (t j)"
    using ok by simp
  have ok0: "\<And>j. j < ?T \<Longrightarrow> transcribeChunk env (apiKey st0) (selectedModel st0) d j = Inr (t j)"
    using ok fresh(5,6) by simp
  have tot: "0 < ?k \<longrightarrow> totalChunks item = ?T" using n by simp
  have tot0: "0 < processedChunks item0 \<longrightarrow> totalChunks item0 = ?T" using fresh(1) by simp
  have key0: "apiKey st0 \<noteq> []" using key fresh(5) by simp
  have res: "resolveVersion env item True ?k (processingState item st) =
      Resolved (vid v) (content v) (versions item) (processingState item st)"
    by (rule resolve_resume_existing[OF raw])
  let ?nv = "rawVersion (uuidv4 env) NAME_RAW_GENERATING [] (now env)"
  have res0: "resolveVersion env item0 r0 (processedChunks item0) (processingState item0 st0) =
      Resolved (uuidv4 env) [] [?nv] (addVersionToItem (mid item0) ?nv True (processingState item0 st0))"
    unfolding fresh(1) by (rule resolve_fresh[OF fresh(1,2)])
  have nr: "\<not> restarts env item True"
    using raw by (auto simp: restarts_def findRaw_def)
  show "sent (startTranscription env item True st) = sent st @ [?k..<?T]"
    using sent_start_success[OF key fil dec tot ext' ok', of True] nr by simp
  have join: "appendChunks t (content v) ?k ?T = appendChunks t [] 0 ?T"
    unfolding ckpt using kn by (simp add: appendChunks_join)
  from start_success_live[OF key fil live res dec tot ext' ok']
  obtain m where m: "findItem (mid item) (mediaQueue (startTranscription env item True st)) = Some m"
    "status m = Completed"
    "versions m = map (\<lambda>v'. if vid v' = vid v then v'\<lparr>name := NAME_RAW_COMPLETE\<rparr> else v')
               (if ?k < ?T then patchContent (vid v) (appendChunks t (content v) ?k ?T) (versions item)
                else versions item)"
    by blast
  let ?v' = "if ?k < ?T
     then v\<lparr>content := appendChunks t (content v) ?k ?T, name := NAME_RAW_COMPLETE\<rparr>
     else v\<lparr>name := NAME_RAW_COMPLETE\<rparr>"
  have fr: "findRaw (versions m) = Some ?v'"
    unfolding m(3) by (simp add: findRaw_rename findRaw_patch patchContent_def raw)
  have same: "\<not> ?k < ?T \<Longrightarrow> appendChunks t (content v) ?k ?T = content v"
    using kn by (simp add: appendChunks_def)
  have c': "content ?v' = appendChunks t (content v) ?k ?T" using same by simp
  show "\<exists>m v'. findItem (mid item) (mediaQueue (startTranscription env item True st)) = Some m \<and>
            status m = Completed \<and> findRaw (versions m) = Some v' \<and> vid v' = vid v \<and>
            content v' = appendChunks t (content v) ?k ?T \<and>
            content v' = appendChunks t [] 0 ?T"
    using m(1,2) fr c' join by (intro exI[of _ m] exI[of _ ?v']) simp
  from start_success_live[OF key0 fresh(3,4) res0 dec tot0 ext' ok0]
  obtain m0 where m0: "findItem (mid item0) (mediaQueue (startTranscription env item0 r0 st0)) = Some m0"
    "status m0 = Completed"
    "versions m0 = map (\<lambda>v'. if vid v' = uuidv4 env then v'\<lparr>name := NAME_RAW_COMPLETE\<rparr> else v')
               (if processedChunks item0 < ?T
                then patchContent (uuidv4 env) (appendChunks t [] (processedChunks item0) ?T) [?nv]
                else [?nv])"
    by blast
  let ?v0 = "if 0 < ?T
     then ?nv\<lparr>content := appendChunks t [] 0 ?T, name := NAME_RAW_COMPLETE\<rparr>
     else ?nv\<lparr>name := NAME_RAW_COMPLETE\<rparr>"
  have fr0: "findRaw (versions m0) = Some ?v0"
    unfolding m0(3) fresh(1) by (simp add: findRaw_def patchContent_def rawVersion_def)
  have c0: "content ?v0 = appendChunks t [] 0 ?T"
    by (simp add: rawVersion_def appendChunks_def)
  have nr0: "\<not> restarts env item0 r0" using fresh(1) by (simp add: restarts_def)
  have s0: "sent (startTranscription env item0 r0 st0) = sent st0 @ [0..<?T]"
    using sent_start_success[OF key0 fresh(3) dec tot0 ext' ok0, of r0] nr0 fresh(1) by simp
  show "\<exists>m0 v0. findItem (mid item0) (mediaQueue (startTranscription env item0 r0 st0)) = Some m0 \<and>
            status m0 = Completed \<and> findRaw (versions m0) = Some v0 \<and>
            content v0 = appendChunks t [] 0 ?T \<and>
            sent (startTranscription env item0 r0 st0) = sent st0 @ [0..<?T]"
    using m0(1,2) fr0 c0 s0 by (intro exI[of _ m0] exI[of _ ?v0]) simp
qed

lemma resume_from_first_raw_example:
  "sent (startTranscription exEnv exPartItem True exPartState) = [1, 2] \<and>
   map_option (map_option content \<circ> findRaw \<circ> versions)
     (findItem ''a'' (mediaQueue (startTranscription exEnv exPartItem True exPartState)))
     = Some (Some ''matn matn matn '') \<and>
   map_option (map_option content \<circ> findRaw \<circ> versions)
     (findItem ''a'' (mediaQueue (startTranscription exEnv exFreshItem False exFreshState)))
     = Some (Some ''matn matn matn '')"
proof -
  have key: "apiKey exPartState \<noteq> []" by (simp add: exPartState_def)
  have fil: "itemFile exPartItem = Some (File ''talk.mp3'')" by (simp add: exPartItem_def)
  have live: "findItem (mid exPartItem) (mediaQueue exPartState) = Some exPartItem"
    by (simp add: exPartState_def findItem_def)
  have raw: "findRaw (versions exPartItem) = Some exPartRaw"
    by (simp add: exPartItem_def exPartRaw_def findRaw_def rawVersion_def)
  have ckpt: "content exPartRaw = appendChunks (\<lambda>j. ''matn'') [] 0 (processedChunks exPartItem)"
    by (simp add: exPartRaw_def exPartItem_def rawVersion_def appendChunks_def)
  have n: "totalChunks exPartItem = chunkCount 500" by (simp add: exPartItem_def chunkCount_500)
  have kn: "processedChunks exPartItem \<le> chunkCount 500"
    by (simp add: exPartItem_def chunkCount_500)
  have dec: "decodeAudioFile exEnv (File ''talk.mp3'') = Inr 500" by (simp add: exEnv_def)
  have ext: "\<forall>j. external exEnv j = (\<lambda>q. q)" by (simp add: exEnv_def)
  have ok: "\<forall>j < chunkCount 500. transcribeChunk exEnv (apiKey exPartState)
              (selectedModel exPartState) 500 j = Inr ((\<lambda>j. ''matn'') j)"
    by (simp add: exEnv_transcribes)
  have f1: "processedChunks exFreshItem = 0" and f2: "versions exFreshItem = []"
    and f3: "itemFile exFreshItem = Some (File ''talk.mp3'')"
    by (simp_all add: exFreshItem_def)
  have f4: "findItem (mid exFreshItem) (mediaQueue exFreshState) = Some exFreshItem"
    by (simp add: exFreshState_def findItem_def)
  have f5: "apiKey exFreshState = apiKey exPartState"
    and f6: "selectedModel exFreshState = selectedModel exPartState"
    by (simp_all add: exFreshState_def exPartState_def)
  have mids: "mid exPartItem = ''a''" "mid exFreshItem = ''a''"
    by (simp_all add: exPartItem_def exFreshItem_def)
  have u: "[Suc 0..<3] = [Suc 0, 2]" by code_simp
  have a: "appendChunks (\<lambda>j. ''matn'') [] 0 3 = ''matn matn matn ''"
  proof -
    have "[0..<3] = [0, 1, 2::nat]" by code_simp
    then show ?thesis by (simp add: appendChunks_def)
  qed
  have s: "sent exPartState = []" "processedChunks exPartItem = 1"
    by (simp_all add: exPartState_def exPartItem_def)
  show ?thesis
    using resume_from_first_raw [OF key fil live raw ckpt n kn dec ext ok f1 f2 f3 f4 f5 f6,
        of False]
    by (auto simp: mids u a s chunkCount_500)
qed










end
